theory Spec2Isabelle
  imports Complex_Main "HOL-Library.Sublist" "HOL-Library.AList"
begin

section \<open>Chest loot injection of Dorios RPG Core\<close>

text \<open>
  A shallow embedding of the class \<open>ChestLootInjector\<close> (src/unnamed/part_000): the
  registries \<open>structures\<close>, \<open>structureLoot\<close> and \<open>biomeLoot\<close>, the region-partitioned
  chest tracking kept in the world's dynamic properties, the structure scan, the loot merge,
  the injection and the entry point \<open>resolve\<close>.

  Conventions of the embedding.
  \<^item> Block coordinates are integers (\<open>int\<close>); a template literal prints an integer in
    decimal, with a leading minus sign for a negative one (\<open>numberToString\<close>; block
    coordinates stay far below the size at which JavaScript prints an exponent).
  \<^item> A \<open>Map\<close> and the own properties of a plain object are an association list in
    insertion order: assigning to a present key keeps its place, assigning to a new key
    appends (\<open>AList.update\<close>). Reading a property of a plain object falls back to the
    members of \<open>Object.prototype\<close> (\<open>readProperty\<close>), and \<open>Object.entries\<close> lists the
    keys that are array indices first, in ascending numeric order, and the other keys after
    them in insertion order (\<open>objectEntries\<close>).
  \<^item> A regional chest set is a JSON object all of whose values are the marker \<open>1\<close>; it is
    kept as the list of its keys, and the stored JSON text is identified with the object
    it denotes (\<open>JSON.parse\<close> inverts \<open>JSON.stringify\<close> on such objects).
  \<^item> Numbers that are not coordinates or counts (chances, random draws) are values of a
    type \<open>'n\<close> with a zero, an addition and an order of which nothing is assumed: the
    theorems hold for IEEE doubles with their rounding addition as for any other such
    type. Concrete worlds use the reals, with values that doubles represent exactly
    wherever they are added.
  \<^item> Calls of the platform (\<open>getBlock\<close>, \<open>getBiome\<close>, the dynamic properties, the
    inventory) are taken to return; an unloaded cell is a \<open>getBlock\<close> of \<open>None\<close>.
  \<^item> All mutable state (dynamic properties, registries, inventories, the random source)
    is one record \<open>world\<close>, passed in and returned.
\<close>

subsection \<open>Data\<close>

record pos =
  pos_x :: int
  pos_y :: int
  pos_z :: int

record dimensionObj =
  dim_id :: string
  getBiome :: "pos \<Rightarrow> string"
  getBlock :: "pos \<Rightarrow> string option"

record block =
  location :: pos
  block_dimension :: dimensionObj

record lootConditions =
  dimension :: "string option"
  biomes :: "string list option"

record 'n lootEntry =
  item :: string
  chance :: 'n
  conditions :: "lootConditions option"

record mergeContext =
  biomeId :: string
  dimensionId :: string

datatype requirement =
  Existence "string list"
  | Threshold "(string \<times> int) list"

type_synonym chest_set = "string list"

record ('n, 'c) world =
  dynamicProperties :: "(string \<times> chest_set) list"
  structures :: "(string \<times> requirement) list"
  structureLoot :: "(string \<times> 'n lootEntry list) list"
  biomeLoot :: "(string \<times> 'n lootEntry list) list"
  containers :: "pos \<Rightarrow> 'c option"
  randomDraws :: "nat \<Rightarrow> 'n"

definition PLACED_CHESTS_KEY :: string where
  "PLACED_CHESTS_KEY = ''dorios:placed_chests''"

definition OPENED_CHESTS_KEY :: string where
  "OPENED_CHESTS_KEY = ''dorios:opened_chests''"

definition REGION_SIZE :: int where
  "REGION_SIZE = 256"

subsection \<open>Keys\<close>

text \<open>
  \<open>posKey\<close>, \<open>regionKey\<close> and \<open>regionPropertyKey\<close> (lines 130 to 155 of the source)
  build strings; \<open>digits\<close> and \<open>numberToString\<close> print the numbers inside them.
\<close>

definition digit_char :: "nat \<Rightarrow> char" where
  "digit_char d = char_of (48 + d)"

fun digits :: "nat \<Rightarrow> string" where
  "digits n = (if n < 10 then [digit_char n] else digits (n div 10) @ [digit_char (n mod 10)])"

declare digits.simps [simp del]

definition numberToString :: "int \<Rightarrow> string" where
  "numberToString i = (if i < 0 then CHR ''-'' # digits (nat (- i)) else digits (nat i))"

definition posKey :: "pos \<Rightarrow> string" where
  "posKey p = numberToString (pos_x p) @ '','' @ numberToString (pos_y p) @ '','' @
     numberToString (pos_z p)"

definition regionKey :: "pos \<Rightarrow> string" where
  "regionKey p =
     (let rx = \<lfloor>real_of_int (pos_x p) / real_of_int REGION_SIZE\<rfloor>;
          rz = \<lfloor>real_of_int (pos_z p) / real_of_int REGION_SIZE\<rfloor>
      in numberToString rx @ '','' @ numberToString rz)"

definition regionPropertyKey :: "string \<Rightarrow> pos \<Rightarrow> string" where
  "regionPropertyKey baseKey p = baseKey @ '':'' @ regionKey p"

subsection \<open>Plain objects as dictionaries\<close>

text \<open>
  The registries \<open>structures\<close>, \<open>structureLoot\<close> and \<open>biomeLoot\<close> are object literals
  (lines 11, 33 and 38). \<open>obj[key]\<close> gives the own property when there is one, the
  inherited member when \<open>key\<close> names a member of \<open>Object.prototype\<close> (a function, or
  the prototype itself for \<open>__proto__\<close>: truthy in each case), and \<open>undefined\<close>
  otherwise. A key is an array index when it is the decimal spelling, without leading
  zeros, of a number below \<open>2^32 - 1\<close>; \<open>indexValue\<close> is that number.
\<close>

definition objectPrototypeKeys :: "string list" where
  "objectPrototypeKeys =
     [''constructor'', ''hasOwnProperty'', ''isPrototypeOf'', ''propertyIsEnumerable'',
      ''toLocaleString'', ''toString'', ''valueOf'', ''__proto__'', ''__defineGetter__'',
      ''__defineSetter__'', ''__lookupGetter__'', ''__lookupSetter__'']"

datatype 'a property = Own 'a | Inherited | Absent

definition readProperty :: "(string \<times> 'a) list \<Rightarrow> string \<Rightarrow> 'a property" where
  "readProperty obj k =
     (case map_of obj k of
        Some v \<Rightarrow> Own v
      | None \<Rightarrow> if k \<in> set objectPrototypeKeys then Inherited else Absent)"

definition isDigit :: "char \<Rightarrow> bool" where
  "isDigit c = (c \<in> set ''0123456789'')"

definition indexValue :: "string \<Rightarrow> int" where
  "indexValue k = foldl (\<lambda>a c. 10 * a + (of_char c - 48)) 0 k"

definition isArrayIndex :: "string \<Rightarrow> bool" where
  "isArrayIndex k =
     (k \<noteq> [] \<and> list_all isDigit k \<and> (hd k \<noteq> CHR ''0'' \<or> k = ''0'') \<and>
      indexValue k < 4294967295)"

definition objectEntries :: "(string \<times> 'a) list \<Rightarrow> (string \<times> 'a) list" where
  "objectEntries obj =
     sort_key (\<lambda>e. indexValue (fst e)) (filter (\<lambda>e. isArrayIndex (fst e)) obj) @
     filter (\<lambda>e. \<not> isArrayIndex (fst e)) obj"

datatype jsError = TypeError

subsection \<open>Dynamic properties and chest tracking\<close>

text \<open>
  The three calls of the world's property store that the source uses, then
  \<open>getChestSet\<close> and \<open>saveChestSet\<close> (lines 164 to 180), \<open>canInjectChest\<close> (192 to 203),
  \<open>markChestOpened\<close> and \<open>markChestPlaced\<close> (210 to 233) and \<open>resetChestTracking\<close>
  (242 to 255). Setting a property to \<open>undefined\<close> deletes it. \<open>hasKey\<close> is the test
  \<open>set[key]\<close> and \<open>setKey\<close> the assignment \<open>set[key] = 1\<close> on a chest set.
\<close>

definition getDynamicProperty :: "('n::{zero,plus,ord}, 'c) world \<Rightarrow> string \<Rightarrow> chest_set option" where
  "getDynamicProperty w k = map_of (dynamicProperties w) k"

definition setDynamicProperty :: "string \<Rightarrow> chest_set option \<Rightarrow> ('n::{zero,plus,ord}, 'c) world \<Rightarrow> ('n, 'c) world" where
  "setDynamicProperty k v w =
     (case v of
        None \<Rightarrow> w\<lparr>dynamicProperties := AList.delete k (dynamicProperties w)\<rparr>
      | Some s \<Rightarrow> w\<lparr>dynamicProperties := AList.update k s (dynamicProperties w)\<rparr>)"

definition getDynamicPropertyIds :: "('n::{zero,plus,ord}, 'c) world \<Rightarrow> string list" where
  "getDynamicPropertyIds w = map fst (dynamicProperties w)"

definition getChestSet :: "('n::{zero,plus,ord}, 'c) world \<Rightarrow> string \<Rightarrow> pos \<Rightarrow> chest_set" where
  "getChestSet w baseKey p =
     (case getDynamicProperty w (regionPropertyKey baseKey p) of
        None \<Rightarrow> []
      | Some raw \<Rightarrow> raw)"

definition saveChestSet :: "string \<Rightarrow> pos \<Rightarrow> chest_set \<Rightarrow> ('n::{zero,plus,ord}, 'c) world \<Rightarrow> ('n, 'c) world" where
  "saveChestSet baseKey p s w = setDynamicProperty (regionPropertyKey baseKey p) (Some s) w"

definition hasKey :: "chest_set \<Rightarrow> string \<Rightarrow> bool" where
  "hasKey s k = (k \<in> set s)"

definition setKey :: "string \<Rightarrow> chest_set \<Rightarrow> chest_set" where
  "setKey k s = (if k \<in> set s then s else s @ [k])"

definition canInjectChest :: "('n::{zero,plus,ord}, 'c) world \<Rightarrow> block \<Rightarrow> bool" where
  "canInjectChest w b =
     (let p = location b;
          key = posKey p;
          placed = getChestSet w PLACED_CHESTS_KEY p
      in if hasKey placed key then False
         else let opened = getChestSet w OPENED_CHESTS_KEY p
              in if hasKey opened key then False else True)"

definition markChestOpened :: "block \<Rightarrow> ('n::{zero,plus,ord}, 'c) world \<Rightarrow> ('n, 'c) world" where
  "markChestOpened b w =
     (let p = location b;
          key = posKey p;
          opened = getChestSet w OPENED_CHESTS_KEY p
      in saveChestSet OPENED_CHESTS_KEY p (setKey key opened) w)"

definition markChestPlaced :: "block \<Rightarrow> ('n::{zero,plus,ord}, 'c) world \<Rightarrow> ('n, 'c) world" where
  "markChestPlaced b w =
     (let p = location b;
          key = posKey p;
          placed = getChestSet w PLACED_CHESTS_KEY p
      in saveChestSet PLACED_CHESTS_KEY p (setKey key placed) w)"

definition resetChestTracking :: "('n::{zero,plus,ord}, 'c) world \<Rightarrow> ('n, 'c) world" where
  "resetChestTracking w =
     fold (\<lambda>i v. if prefix PLACED_CHESTS_KEY i \<or> prefix OPENED_CHESTS_KEY i
                  then setDynamicProperty i None v else v)
       (getDynamicPropertyIds w) w"

subsection \<open>Histories of tracking operations\<close>

text \<open>
  The three operations on the tracking store, as events of a history. \<open>canInjectChest\<close>
  only calls \<open>getDynamicProperty\<close>, so its embedding returns no new world and the event
  \<open>CanInject\<close> leaves the world as it is.
\<close>

datatype tracking_op = MarkOpened block | MarkPlaced block | CanInject block

fun op_marks :: "tracking_op \<Rightarrow> pos option" where
  "op_marks (MarkOpened b) = Some (location b)"
| "op_marks (MarkPlaced b) = Some (location b)"
| "op_marks (CanInject b) = None"

fun apply_op :: "tracking_op \<Rightarrow> ('n::{zero,plus,ord}, 'c) world \<Rightarrow> ('n, 'c) world" where
  "apply_op (MarkOpened b) w = markChestOpened b w"
| "apply_op (MarkPlaced b) w = markChestPlaced b w"
| "apply_op (CanInject b) w = (let r = canInjectChest w b in w)"

subsection \<open>Registry\<close>

text \<open>
  The structure definitions the module starts with (lines 11 to 28), in the order of the
  source, and \<open>registerStructure\<close> (lines 52 to 56). A requirement is an object or an
  array, hence truthy: the test \<open>structures[id]\<close> fails only when the id has no own
  property and names no member of \<open>Object.prototype\<close>.
\<close>

definition initialStructures :: "(string \<times> requirement) list" where
  "initialStructures =
     [(''desert_pyramid'',
         Threshold [(''minecraft:chiseled_sandstone'', 2), (''minecraft:tnt'', 2)]),
      (''buried_treasure'',
         Threshold [(''minecraft:sand'', 8), (''minecraft:sandstone'', 4)]),
      (''shipwreck_treasure'',
         Existence [''minecraft:prismarine'', ''minecraft:dark_prismarine'']),
      (''ruined_portal'',
         Existence [''minecraft:obsidian'', ''minecraft:crying_obsidian''])]"


text \<open>
  \<open>registerStructureLoot\<close> (lines 66 to 89) and \<open>registerBiomeLoot\<close> (lines 99 to 122)
  have the same body. A stored table is an array, hence truthy. For an id that names a
  member of \<open>Object.prototype\<close> the test finds the inherited member, the merge branch is
  taken and iterating over that member throws a \<open>TypeError\<close> before anything is stored.
  \<open>mergeRegistered\<close> is the merge that both carry out on a
  table that exists already: the local \<open>Map\<close> is filled from the existing entries, each
  new entry replaces the one of its item when there is none or when its chance is greater,
  and the values of the \<open>Map\<close> are the new table.
\<close>

definition setExisting :: "('n::{zero,plus,ord}) lootEntry list \<Rightarrow> (string \<times> 'n lootEntry) list" where
  "setExisting existing = fold (\<lambda>entry m. AList.update (item entry) entry m) existing []"

definition setNew :: "('n::{zero,plus,ord}) lootEntry \<Rightarrow> (string \<times> 'n lootEntry) list \<Rightarrow> (string \<times> 'n lootEntry) list" where
  "setNew entry m =
     (case map_of m (item entry) of
        None \<Rightarrow> AList.update (item entry) entry m
      | Some prev \<Rightarrow>
          if chance entry > chance prev then AList.update (item entry) entry m else m)"

definition mergeRegistered :: "('n::{zero,plus,ord}) lootEntry list \<Rightarrow> 'n lootEntry list \<Rightarrow> 'n lootEntry list" where
  "mergeRegistered existing loot = map snd (fold setNew loot (setExisting existing))"

definition registerStructureLoot ::
  "string \<Rightarrow> ('n::{zero,plus,ord}) lootEntry list \<Rightarrow> ('n, 'c) world \<Rightarrow>
     jsError + ('n, 'c) world" where
  "registerStructureLoot structureId loot w =
     (case readProperty (structureLoot w) structureId of
        Absent \<Rightarrow>
          Inr (w\<lparr>structureLoot := AList.update structureId loot (structureLoot w)\<rparr>)
      | Own existing \<Rightarrow>
          Inr (w\<lparr>structureLoot :=
                 AList.update structureId (mergeRegistered existing loot) (structureLoot w)\<rparr>)
      | Inherited \<Rightarrow> Inl TypeError)"

definition registerBiomeLoot ::
  "string \<Rightarrow> ('n::{zero,plus,ord}) lootEntry list \<Rightarrow> ('n, 'c) world \<Rightarrow>
     jsError + ('n, 'c) world" where
  "registerBiomeLoot biome loot w =
     (case readProperty (biomeLoot w) biome of
        Absent \<Rightarrow> Inr (w\<lparr>biomeLoot := AList.update biome loot (biomeLoot w)\<rparr>)
      | Own existing \<Rightarrow>
          Inr (w\<lparr>biomeLoot :=
                 AList.update biome (mergeRegistered existing loot) (biomeLoot w)\<rparr>)
      | Inherited \<Rightarrow> Inl TypeError)"

text \<open>A sequence of registrations for one id; the first error ends it.\<close>

fun registerEach ::
  "('l \<Rightarrow> 'w \<Rightarrow> jsError + 'w) \<Rightarrow> 'l list \<Rightarrow> 'w \<Rightarrow> jsError + 'w" where
  "registerEach reg [] w = Inr w"
| "registerEach reg (loot # rest) w =
     (case reg loot w of Inl e \<Rightarrow> Inl e | Inr w1 \<Rightarrow> registerEach reg rest w1)"

text \<open>
  What the registration of a list leaves under an id, given what was stored before; the
  state of the local \<open>Map\<close> of the merge (one pair per key, each entry under its own
  item); the effect of one new entry on the entry of its item; and the invariant that a
  table holds, for the entries registered so far, one entry per item with the greatest
  chance.
\<close>

definition storedAfter :: "('n::{zero,plus,ord}) lootEntry list option \<Rightarrow> 'n lootEntry list \<Rightarrow> 'n lootEntry list" where
  "storedAfter stored loot =
     (case stored of None \<Rightarrow> loot | Some existing \<Rightarrow> mergeRegistered existing loot)"

definition keyed :: "(string \<times> ('n::{zero,plus,ord}) lootEntry) list \<Rightarrow> bool" where
  "keyed m = (distinct (map fst m) \<and> (\<forall>p \<in> set m. item (snd p) = fst p))"

definition better :: "('n::{zero,plus,ord}) lootEntry \<Rightarrow> 'n lootEntry option \<Rightarrow> 'n lootEntry option" where
  "better e cur = (case cur of None \<Rightarrow> Some e
     | Some prev \<Rightarrow> if chance e > chance prev then Some e else Some prev)"

definition bestOf :: "('n::{zero,plus,ord}) lootEntry set \<Rightarrow> 'n lootEntry list \<Rightarrow> bool" where
  "bestOf S t =
     (distinct (map item t) \<and>
      (\<forall>e \<in> S. \<exists>r \<in> set t. item r = item e) \<and>
      (\<forall>r \<in> set t. r \<in> S \<and> (\<forall>e \<in> S. item e = item r \<longrightarrow> chance e \<le> chance r)))"

subsection \<open>Structure detection\<close>

text \<open>
  \<open>detectNearbyStructure\<close> (lines 269 to 335). \<open>scanOffsets\<close> lists the offsets in the
  order of the three nested loops, \<open>countCell\<close> is the body of the innermost loop on the
  pair of the \<open>Map\<close> of counts and the chest counter, \<open>anyPresent\<close> and \<open>allMet\<close> are
  the two inner loops of the matching and \<open>matchStructures\<close> the loop over
  \<open>Object.entries(structures)\<close>. The entries of a mapping requirement are taken in the
  order of its list: the result of \<open>allMet\<close> does not depend on it.
\<close>

type_synonym block_count = "(string \<times> nat) list"

definition scanOffsets :: "int \<Rightarrow> (int \<times> int \<times> int) list" where
  "scanOffsets radius =
     concat (map (\<lambda>dx. concat (map (\<lambda>dy. map (\<lambda>dz. (dx, dy, dz)) [- radius..radius])
       [- radius..radius])) [- radius..radius])"

definition blockAt :: "dimensionObj \<Rightarrow> pos \<Rightarrow> int \<times> int \<times> int \<Rightarrow> string option" where
  "blockAt dimn origin d =
     (case d of (dx, dy, dz) \<Rightarrow>
        getBlock dimn \<lparr>pos_x = pos_x origin + dx, pos_y = pos_y origin + dy,
          pos_z = pos_z origin + dz\<rparr>)"

definition countOf :: "block_count \<Rightarrow> string \<Rightarrow> nat" where
  "countOf blockCount t = (case map_of blockCount t of None \<Rightarrow> 0 | Some n \<Rightarrow> n)"

definition countCell ::
  "dimensionObj \<Rightarrow> pos \<Rightarrow> int \<times> int \<times> int \<Rightarrow> block_count \<times> nat \<Rightarrow> block_count \<times> nat" where
  "countCell dimn origin d acc =
     (case blockAt dimn origin d of
        None \<Rightarrow> acc
      | Some t \<Rightarrow>
          (AList.update t (countOf (fst acc) t + 1) (fst acc),
           if t = ''minecraft:chest'' then snd acc + 1 else snd acc))"

definition scanArea :: "dimensionObj \<Rightarrow> pos \<Rightarrow> int \<Rightarrow> block_count \<times> nat" where
  "scanArea dimn origin radius = fold (countCell dimn origin) (scanOffsets radius) ([], 0)"

fun anyPresent :: "block_count \<Rightarrow> string list \<Rightarrow> bool" where
  "anyPresent blockCount [] = False"
| "anyPresent blockCount (t # ts) =
     (if map_of blockCount t \<noteq> None then True else anyPresent blockCount ts)"

fun allMet :: "block_count \<Rightarrow> (string \<times> int) list \<Rightarrow> bool" where
  "allMet blockCount [] = True"
| "allMet blockCount ((t, requiredAmount) # rest) =
     (if int (countOf blockCount t) < requiredAmount then False else allMet blockCount rest)"

fun matchStructures :: "block_count \<Rightarrow> (string \<times> requirement) list \<Rightarrow> string" where
  "matchStructures blockCount [] = ''default''"
| "matchStructures blockCount ((structureId, Existence ts) # rest) =
     (if anyPresent blockCount ts then structureId else matchStructures blockCount rest)"
| "matchStructures blockCount ((structureId, Threshold m) # rest) =
     (if allMet blockCount m then structureId else matchStructures blockCount rest)"

definition detectNearbyStructure :: "('n::{zero,plus,ord}, 'c) world \<Rightarrow> block \<Rightarrow> int \<Rightarrow> string" where
  "detectNearbyStructure w b radius =
     (let scan = scanArea (block_dimension b) (location b) radius;
          blockCount = fst scan;
          chestCount = snd scan
      in if chestCount \<ge> 6 then ''chest_cluster''
         else matchStructures blockCount (objectEntries (structures w)))"

text \<open>The number of cells of a list of offsets that hold a given block type.\<close>

definition cellCount :: "dimensionObj \<Rightarrow> pos \<Rightarrow> (int \<times> int \<times> int) list \<Rightarrow> string \<Rightarrow> nat" where
  "cellCount dimn origin ds t = length (filter (\<lambda>d. blockAt dimn origin d = Some t) ds)"

text \<open>
  The classification in the words of the specification: the observed count of a block type
  is the number of scanned cells holding it, a list requirement asks for one listed type
  with count at least one, a mapping requirement asks for every listed minimum.
\<close>

definition observedCount :: "dimensionObj \<Rightarrow> pos \<Rightarrow> int \<Rightarrow> string \<Rightarrow> nat" where
  "observedCount dimn origin radius t =
     length (filter (\<lambda>d. blockAt dimn origin d = Some t) (scanOffsets radius))"



subsection \<open>Loot resolution\<close>

text \<open>
  \<open>mergeLootTables\<close> (lines 355 to 387); \<open>addChance\<close> is the \<open>finalLoot.set\<close> that both
  loops end with.
\<close>

type_synonym 'n loot_table = "(string \<times> 'n) list"

definition addChance :: "('n::{zero,plus,ord}) lootEntry \<Rightarrow> 'n loot_table \<Rightarrow> 'n loot_table" where
  "addChance entry finalLoot =
     AList.update (item entry)
       ((case map_of finalLoot (item entry) of None \<Rightarrow> 0 | Some c \<Rightarrow> c) + chance entry)
       finalLoot"

text \<open>
  The two \<open>continue\<close> tests on a structure entry. \<open>cond.dimension\<close> is tested for
  truthiness first, so an empty string there counts as no dimension; an array is always
  truthy, so \<open>cond.biomes\<close> is consulted whenever it is present.
\<close>

definition skipped :: "mergeContext \<Rightarrow> ('n::{zero,plus,ord}) lootEntry \<Rightarrow> bool" where
  "skipped context entry =
     (case conditions entry of
        None \<Rightarrow> False
      | Some cond \<Rightarrow>
          if (case dimension cond of None \<Rightarrow> False
              | Some d \<Rightarrow> d \<noteq> [] \<and> d \<noteq> dimensionId context) then True
          else (case biomes cond of None \<Rightarrow> False
                | Some bs \<Rightarrow> biomeId context \<notin> set bs))"

definition addStructureEntry :: "mergeContext \<Rightarrow> ('n::{zero,plus,ord}) lootEntry \<Rightarrow> 'n loot_table \<Rightarrow> 'n loot_table" where
  "addStructureEntry context entry finalLoot =
     (if skipped context entry then finalLoot else addChance entry finalLoot)"

definition mergeLootTables ::
  "('n::{zero,plus,ord}) lootEntry list option \<Rightarrow> 'n lootEntry list option \<Rightarrow> mergeContext \<Rightarrow> 'n loot_table" where
  "mergeLootTables biomeTable structureTable context =
     (let base = (case biomeTable of None \<Rightarrow> [] | Some t \<Rightarrow> fold addChance t [])
      in case structureTable of
           None \<Rightarrow> base
         | Some t \<Rightarrow> fold (addStructureEntry context) t base)"

text \<open>
  The entries of a table that may be absent; the chances that the two tables contribute
  to one item, in the order in which the two loops meet them; and the rule for skipping a
  structure entry in the words of the specification, which ask for no more than a
  dimension that differs.
\<close>

definition tableEntries :: "('n::{zero,plus,ord}) lootEntry list option \<Rightarrow> 'n lootEntry list" where
  "tableEntries t = (case t of None \<Rightarrow> [] | Some es \<Rightarrow> es)"

definition chancesFor ::
  "string \<Rightarrow> ('n::{zero,plus,ord}) lootEntry list option \<Rightarrow> 'n lootEntry list option \<Rightarrow>
     mergeContext \<Rightarrow> 'n list" where
  "chancesFor i biomeTable structureTable context =
     map chance (filter (\<lambda>e. item e = i)
       (tableEntries biomeTable @
        filter (\<lambda>e. \<not> skipped context e) (tableEntries structureTable)))"

definition skipClaimed :: "mergeContext \<Rightarrow> ('n::{zero,plus,ord}) lootEntry \<Rightarrow> bool" where
  "skipClaimed context entry =
     (case conditions entry of
        None \<Rightarrow> False
      | Some cond \<Rightarrow>
          (case dimension cond of None \<Rightarrow> False | Some d \<Rightarrow> d \<noteq> dimensionId context) \<or>
          (case biomes cond of None \<Rightarrow> False | Some bs \<Rightarrow> biomeId context \<notin> set bs))"

subsection \<open>Injection and the entry point\<close>

text \<open>
  \<open>injectLoot\<close> (lines 399 to 412) and \<open>resolve\<close> (lines 421 to 454).
  \<open>addItem\<close> is the platform's insertion of one unit of an item into a container; the
  container type and the insertion are parameters. Every entry of the table takes one
  draw of the random source, in the order of the table.
\<close>

fun rollEntries ::
  "(string \<Rightarrow> 'c \<Rightarrow> 'c) \<Rightarrow> ('n::{zero,plus,ord}) loot_table \<Rightarrow> (nat \<Rightarrow> 'n) \<times> 'c \<Rightarrow>
     (nat \<Rightarrow> 'n) \<times> 'c" where
  "rollEntries addItem [] st = st"
| "rollEntries addItem ((itemId, c) # rest) st =
     (let draws = fst st;
          container = snd st;
          rest_draws = (\<lambda>n. draws (Suc n))
      in if draws 0 \<le> c
         then rollEntries addItem rest (rest_draws, addItem itemId container)
         else rollEntries addItem rest (rest_draws, container))"

definition injectLoot ::
  "(string \<Rightarrow> 'c \<Rightarrow> 'c) \<Rightarrow> ('n::{zero,plus,ord}) loot_table \<Rightarrow> block \<Rightarrow> ('n, 'c) world \<Rightarrow> ('n, 'c) world" where
  "injectLoot addItem lootTable b w =
     (if lootTable = [] then w
      else case containers w (location b) of
             None \<Rightarrow> w
           | Some container \<Rightarrow>
               (let st = rollEntries addItem lootTable (randomDraws w, container)
                in w\<lparr>containers := (containers w)(location b := Some (snd st)),
                     randomDraws := fst st\<rparr>))"

text \<open>
  The value of the local \<open>finalLoot\<close> of \<open>resolve\<close>; the scan has the default radius 6.
  The two registries are read at the biome id that the platform reports, a namespaced
  identifier such as \<open>minecraft:desert\<close>, and at the structure id that the detection
  returns, an own key of \<open>structures\<close> or one of its two literals. Neither names a member
  of \<open>Object.prototype\<close>, so both reads are reads of own properties.
\<close>

definition finalLootOf :: "('n::{zero,plus,ord}, 'c) world \<Rightarrow> block \<Rightarrow> 'n loot_table" where
  "finalLootOf w b =
     (let dimn = block_dimension b;
          dimension_id = dim_id dimn;
          biome_id = getBiome dimn (location b);
          structureId = detectNearbyStructure w b 6;
          biomeTable = map_of (biomeLoot w) biome_id;
          structureTable = map_of (structureLoot w) structureId
      in mergeLootTables biomeTable structureTable
           \<lparr>biomeId = biome_id, dimensionId = dimension_id\<rparr>)"

definition resolve :: "(string \<Rightarrow> 'c \<Rightarrow> 'c) \<Rightarrow> ('n::{zero,plus,ord}, 'c) world \<Rightarrow> block \<Rightarrow> ('n, 'c) world" where
  "resolve addItem w b =
     (if \<not> canInjectChest w b then w
      else let finalLoot = finalLootOf w b;
               w1 = markChestOpened b w
           in if finalLoot = [] then w1 else injectLoot addItem finalLoot b w1)"

subsection \<open>A concrete world\<close>

definition overworld :: dimensionObj where
  "overworld = \<lparr>dim_id = ''minecraft:overworld'', getBiome = (\<lambda>p. ''minecraft:desert''),
     getBlock = (\<lambda>p. None)\<rparr>"

definition chestAt :: "int \<Rightarrow> int \<Rightarrow> int \<Rightarrow> block" where
  "chestAt a h c = \<lparr>location = \<lparr>pos_x = a, pos_y = h, pos_z = c\<rparr>, block_dimension = overworld\<rparr>"

definition lootOf :: "string \<Rightarrow> ('n::{zero,plus,ord}) \<Rightarrow> 'n lootEntry" where
  "lootOf i c = \<lparr>item = i, chance = c, conditions = None\<rparr>"

text \<open>
  A world in which every cell around the chest is unloaded, with loot registered for the
  structure \<open>default\<close>, an empty inventory at every position and draws of one half.
\<close>

definition lootWorld :: "(real, string list) world" where
  "lootWorld = \<lparr>dynamicProperties = [], structures = initialStructures,
     structureLoot = [(''default'', [lootOf ''gold_ingot'' 1])],
     biomeLoot = [(''minecraft:desert'', [])],
     containers = (\<lambda>p. Some []), randomDraws = (\<lambda>n. 1 / 2)\<rparr>"

text \<open>
  Two structure entries, of chances that doubles represent exactly: one restricted to the
  biome \<open>plains\<close>, one whose dimension is the empty string.
\<close>

definition plainsOnly :: "real lootEntry" where
  "plainsOnly = \<lparr>item = ''x'', chance = 1 / 2,
     conditions = Some \<lparr>dimension = None, biomes = Some [''plains'']\<rparr>\<rparr>"

definition emptyDimension :: "real lootEntry" where
  "emptyDimension = \<lparr>item = ''x'', chance = 1 / 2,
     conditions = Some \<lparr>dimension = Some [], biomes = None\<rparr>\<rparr>"

text \<open>
  A site whose scan of radius 1 around the chest finds two chiseled sandstone and two TNT
  blocks, sand and sandstone, one chest and three unloaded cells.
\<close>

definition pyramidSite :: dimensionObj where
  "pyramidSite = \<lparr>dim_id = ''minecraft:overworld'', getBiome = (\<lambda>p. ''desert''),
     getBlock = (\<lambda>p.
       if p = \<lparr>pos_x = 0, pos_y = 64, pos_z = 0\<rparr> then Some ''minecraft:chest''
       else if p = \<lparr>pos_x = 1, pos_y = 64, pos_z = 0\<rparr> \<or> p = \<lparr>pos_x = - 1, pos_y = 64, pos_z = 0\<rparr>
         then Some ''minecraft:chiseled_sandstone''
       else if p = \<lparr>pos_x = 0, pos_y = 63, pos_z = 1\<rparr> \<or> p = \<lparr>pos_x = 0, pos_y = 63, pos_z = - 1\<rparr>
         then Some ''minecraft:tnt''
       else if pos_y p = 63 \<and> pos_x p \<noteq> 0 then Some ''minecraft:sandstone''
       else if pos_y p = 65 \<and> pos_x p = 1 then None
       else Some ''minecraft:sand'')\<rparr>"

definition pyramidChest :: block where
  "pyramidChest = \<lparr>location = \<lparr>pos_x = 0, pos_y = 64, pos_z = 0\<rparr>, block_dimension = pyramidSite\<rparr>"

definition freshWorld :: "(real, string list) world" where
  "freshWorld = \<lparr>dynamicProperties = [], structures = initialStructures, structureLoot = [],
     biomeLoot = [], containers = (\<lambda>p. None), randomDraws = (\<lambda>n. 0)\<rparr>"

subsection \<open>Decimal keys are injective\<close>

text \<open>Reading a digit string back, used only to show that printing loses nothing.\<close>

definition digit_val :: "char \<Rightarrow> nat" where
  "digit_val c = of_char c - 48"

definition decimal_val :: "string \<Rightarrow> nat" where
  "decimal_val s = foldl (\<lambda>a c. 10 * a + digit_val c) 0 s"

lemma digits_nonempty: "digits n \<noteq> []"
  by (subst digits.simps) simp

lemma digit_val_digit_char: "d < 10 \<Longrightarrow> digit_val (digit_char d) = d"
  by (simp add: digit_val_def digit_char_def)

lemma decimal_val_digits: "decimal_val (digits n) = n"
proof (induction n rule: digits.induct)
  case (1 n)
  show ?case
  proof (cases "n < 10")
    case True
    then show ?thesis
      by (subst digits.simps) (simp add: decimal_val_def digit_val_digit_char)
  next
    case False
    with 1 have "decimal_val (digits (n div 10)) = n div 10" by simp
    with False show ?thesis
      by (subst digits.simps) (simp add: decimal_val_def digit_val_digit_char)
  qed
qed

lemma digits_inj: "digits n = digits m \<Longrightarrow> n = m"
  by (metis decimal_val_digits)

lemma digit_char_code: "d < 10 \<Longrightarrow> of_char (digit_char d) = 48 + d"
  by (simp add: digit_char_def)

lemma digits_codes: "c \<in> set (digits n) \<Longrightarrow> 48 \<le> (of_char c :: nat)"
proof (induction n rule: digits.induct)
  case (1 n)
  show ?case
  proof (cases "n < 10")
    case True
    with "1.prems" show ?thesis
      by (subst (asm) digits.simps) (auto simp: digit_char_code)
  next
    case False
    with "1.prems" have "c \<in> set (digits (n div 10)) \<or> c = digit_char (n mod 10)"
      by (subst (asm) digits.simps) auto
    with False "1.IH" show ?thesis
      by (auto simp: digit_char_code)
  qed
qed

lemma comma_notin_digits: "CHR '','' \<notin> set (digits n)"
  using digits_codes [of "CHR '',''" n] by auto

lemma minus_notin_digits: "CHR ''-'' \<notin> set (digits n)"
  using digits_codes [of "CHR ''-''" n] by auto

lemma comma_notin_numberToString: "CHR '','' \<notin> set (numberToString i)"
  by (simp add: numberToString_def comma_notin_digits)

lemma numberToString_inj: "numberToString i = numberToString j \<Longrightarrow> i = j"
proof -
  assume eq: "numberToString i = numberToString j"
  have hd_digits: "\<And>n. hd (digits n) \<noteq> CHR ''-''"
    using minus_notin_digits digits_nonempty by (metis hd_in_set)
  show "i = j"
  proof (cases "i < 0")
    case True
    show ?thesis
    proof (cases "j < 0")
      case True
      with \<open>i < 0\<close> eq have "digits (nat (- i)) = digits (nat (- j))"
        by (simp add: numberToString_def)
      then have "nat (- i) = nat (- j)" by (rule digits_inj)
      with True \<open>i < 0\<close> show ?thesis by simp
    next
      case False
      with \<open>i < 0\<close> eq have "CHR ''-'' # digits (nat (- i)) = digits (nat j)"
        by (simp add: numberToString_def)
      then have "hd (digits (nat j)) = CHR ''-''" by (metis list.sel(1))
      with hd_digits show ?thesis by blast
    qed
  next
    case False
    show ?thesis
    proof (cases "j < 0")
      case True
      with \<open>\<not> i < 0\<close> eq have "digits (nat i) = CHR ''-'' # digits (nat (- j))"
        by (simp add: numberToString_def)
      then have "hd (digits (nat i)) = CHR ''-''" by simp
      with hd_digits show ?thesis by blast
    next
      case False
      with \<open>\<not> i < 0\<close> eq have "digits (nat i) = digits (nat j)"
        by (simp add: numberToString_def)
      then have "nat i = nat j" by (rule digits_inj)
      with False \<open>\<not> i < 0\<close> show ?thesis by simp
    qed
  qed
qed

lemma split_at_separator:
  "c \<notin> set a \<Longrightarrow> c \<notin> set a' \<Longrightarrow> a @ c # b = a' @ c # b' \<Longrightarrow> a = a' \<and> b = b'"
proof (induction a arbitrary: a')
  case Nil
  then show ?case by (cases a') auto
next
  case (Cons h t)
  then show ?case by (cases a') auto
qed

lemma posKey_inj: "posKey p = posKey q \<Longrightarrow> p = (q :: pos)"
proof -
  assume "posKey p = posKey q"
  then have e: "numberToString (pos_x p) @ CHR '','' # (numberToString (pos_y p) @ CHR '','' # numberToString (pos_z p))
     = numberToString (pos_x q) @ CHR '','' # (numberToString (pos_y q) @ CHR '','' # numberToString (pos_z q))"
    by (simp add: posKey_def)
  from split_at_separator [OF comma_notin_numberToString comma_notin_numberToString e]
  have x: "numberToString (pos_x p) = numberToString (pos_x q)"
    and r: "numberToString (pos_y p) @ CHR '','' # numberToString (pos_z p)
       = numberToString (pos_y q) @ CHR '','' # numberToString (pos_z q)"
    by simp_all
  from split_at_separator [OF comma_notin_numberToString comma_notin_numberToString r]
  have y: "numberToString (pos_y p) = numberToString (pos_y q)"
    and z: "numberToString (pos_z p) = numberToString (pos_z q)"
    by simp_all
  from x y z have "pos_x p = pos_x q" "pos_y p = pos_y q" "pos_z p = pos_z q"
    by (auto dest: numberToString_inj)
  then show "p = q" by simp
qed

lemma regionKey_div:
  "regionKey p =
     numberToString (pos_x p div 256) @ '','' @ numberToString (pos_z p div 256)"
proof -
  have "\<lfloor>real_of_int a / real_of_int REGION_SIZE\<rfloor> = a div 256" for a
    unfolding REGION_SIZE_def by (rule floor_divide_of_int_eq)
  then show ?thesis by (simp add: regionKey_def)
qed

lemma regionKey_eq_iff:
  "regionKey p = regionKey q \<longleftrightarrow>
     pos_x p div 256 = pos_x q div 256 \<and> pos_z p div 256 = pos_z q div 256"
proof
  assume "regionKey p = regionKey q"
  then have e: "numberToString (pos_x p div 256) @ CHR '','' # numberToString (pos_z p div 256)
     = numberToString (pos_x q div 256) @ CHR '','' # numberToString (pos_z q div 256)"
    by (simp add: regionKey_div)
  from split_at_separator [OF comma_notin_numberToString comma_notin_numberToString e]
  show "pos_x p div 256 = pos_x q div 256 \<and> pos_z p div 256 = pos_z q div 256"
    by (auto dest: numberToString_inj)
next
  assume "pos_x p div 256 = pos_x q div 256 \<and> pos_z p div 256 = pos_z q div 256"
  then show "regionKey p = regionKey q"
    by (simp add: regionKey_div)
qed

subsection \<open>The tracking store\<close>

lemma kinds_differ:
  "regionPropertyKey PLACED_CHESTS_KEY p \<noteq> regionPropertyKey OPENED_CHESTS_KEY q"
  "regionPropertyKey OPENED_CHESTS_KEY p \<noteq> regionPropertyKey PLACED_CHESTS_KEY q"
  by (simp_all add: regionPropertyKey_def PLACED_CHESTS_KEY_def OPENED_CHESTS_KEY_def)

lemma regionPropertyKey_eq_iff:
  "regionPropertyKey k p = regionPropertyKey k q \<longleftrightarrow> regionKey p = regionKey q"
  by (simp add: regionPropertyKey_def)

lemma getChestSet_saveChestSet:
  "getChestSet (saveChestSet k p s w) k' q =
     (if regionPropertyKey k' q = regionPropertyKey k p then s else getChestSet w k' q)"
  by (simp add: getChestSet_def saveChestSet_def setDynamicProperty_def getDynamicProperty_def
      update_conv')

lemma getChestSet_cong:
  "regionPropertyKey k q = regionPropertyKey k' q' \<Longrightarrow> getChestSet w k q = getChestSet w k' q'"
  by (simp add: getChestSet_def)

lemma hasKey_setKey: "hasKey (setKey k s) k' \<longleftrightarrow> k' = k \<or> hasKey s k'"
  by (auto simp: hasKey_def setKey_def)

lemma canInjectChest_iff:
  "canInjectChest w b \<longleftrightarrow>
     \<not> hasKey (getChestSet w PLACED_CHESTS_KEY (location b)) (posKey (location b)) \<and>
     \<not> hasKey (getChestSet w OPENED_CHESTS_KEY (location b)) (posKey (location b))"
  by (simp add: canInjectChest_def Let_def)

lemma hasKey_markChestOpened:
  "hasKey (getChestSet (markChestOpened b w) kind q) key \<longleftrightarrow>
     (regionPropertyKey kind q = regionPropertyKey OPENED_CHESTS_KEY (location b) \<and>
        key = posKey (location b)) \<or>
     hasKey (getChestSet w kind q) key"
  by (auto simp: markChestOpened_def Let_def getChestSet_saveChestSet hasKey_setKey
      dest: getChestSet_cong [of _ _ _ _ w])

lemma hasKey_markChestPlaced:
  "hasKey (getChestSet (markChestPlaced b w) kind q) key \<longleftrightarrow>
     (regionPropertyKey kind q = regionPropertyKey PLACED_CHESTS_KEY (location b) \<and>
        key = posKey (location b)) \<or>
     hasKey (getChestSet w kind q) key"
  by (auto simp: markChestPlaced_def Let_def getChestSet_saveChestSet hasKey_setKey
      dest: getChestSet_cong [of _ _ _ _ w])

lemma posKey_eq_iff: "posKey p = posKey q \<longleftrightarrow> p = q"
  using posKey_inj by blast

lemma canInjectChest_markChestOpened:
  "canInjectChest (markChestOpened b w) c \<longleftrightarrow> location c \<noteq> location b \<and> canInjectChest w c"
  by (auto simp: canInjectChest_iff hasKey_markChestOpened kinds_differ posKey_eq_iff)

lemma canInjectChest_markChestPlaced:
  "canInjectChest (markChestPlaced b w) c \<longleftrightarrow> location c \<noteq> location b \<and> canInjectChest w c"
  by (auto simp: canInjectChest_iff hasKey_markChestPlaced kinds_differ posKey_eq_iff)

lemma canInjectChest_apply_op:
  "canInjectChest (apply_op t w) c \<longleftrightarrow> op_marks t \<noteq> Some (location c) \<and> canInjectChest w c"
  by (cases t) (auto simp: canInjectChest_markChestOpened canInjectChest_markChestPlaced)

lemma canInjectChest_fold:
  "canInjectChest (fold apply_op ts w) c \<longleftrightarrow>
     Some (location c) \<notin> op_marks ` set ts \<and> canInjectChest w c"
  by (induction ts arbitrary: w) (auto simp: canInjectChest_apply_op)

lemma canInjectChest_fresh: "dynamicProperties w = [] \<Longrightarrow> canInjectChest w c"
  by (simp add: canInjectChest_iff getChestSet_def getDynamicProperty_def hasKey_def)

lemma reset_fold:
  "getDynamicProperty (fold (\<lambda>i v. if prefix PLACED_CHESTS_KEY i \<or> prefix OPENED_CHESTS_KEY i
                  then setDynamicProperty i None v else v) ids w) k =
     (if k \<in> set ids \<and> (prefix PLACED_CHESTS_KEY k \<or> prefix OPENED_CHESTS_KEY k) then None
      else getDynamicProperty w k)"
  by (induction ids arbitrary: w)
     (auto simp: setDynamicProperty_def getDynamicProperty_def delete_conv')

lemma getDynamicProperty_reset:
  "getDynamicProperty (resetChestTracking w) k =
     (if prefix PLACED_CHESTS_KEY k \<or> prefix OPENED_CHESTS_KEY k then None
      else getDynamicProperty w k)"
proof -
  have "k \<notin> set (getDynamicPropertyIds w) \<Longrightarrow> getDynamicProperty w k = None"
    by (simp add: getDynamicPropertyIds_def getDynamicProperty_def map_of_eq_None_iff)
  then show ?thesis
    unfolding resetChestTracking_def reset_fold by auto
qed

lemma prefix_regionPropertyKey: "prefix k (regionPropertyKey k p)"
  by (simp add: regionPropertyKey_def)

lemma canInjectChest_reset: "canInjectChest (resetChestTracking w) c"
  by (simp add: canInjectChest_iff getChestSet_def getDynamicProperty_reset
      prefix_regionPropertyKey hasKey_def)

lemma chestAt_location: "location (chestAt a h c) = \<lparr>pos_x = a, pos_y = h, pos_z = c\<rparr>"
  by (simp add: chestAt_def)

section \<open>The claims\<close>

subsection \<open>Chest tracking\<close>

text \<open>
  Claim C8. The region key of a position is the pair of \<open>floor (x / 256)\<close> and
  \<open>floor (z / 256)\<close>, printed with a comma between them: two positions have the same
  region key exactly when both floors agree. The positions \<open>(0,0,0)\<close> and \<open>(300,0,0)\<close>
  have different region keys, the positions \<open>(0,0,0)\<close> and \<open>(10,0,10)\<close> the same one.
\<close>

theorem regionKey_floor:
  "(regionKey p = regionKey q \<longleftrightarrow>
      \<lfloor>real_of_int (pos_x p) / 256\<rfloor> = \<lfloor>real_of_int (pos_x q) / 256\<rfloor> \<and>
      \<lfloor>real_of_int (pos_z p) / 256\<rfloor> = \<lfloor>real_of_int (pos_z q) / 256\<rfloor>) \<and>
   regionKey \<lparr>pos_x = 0, pos_y = 0, pos_z = 0\<rparr> \<noteq> regionKey \<lparr>pos_x = 300, pos_y = 0, pos_z = 0\<rparr> \<and>
   regionKey \<lparr>pos_x = 0, pos_y = 0, pos_z = 0\<rparr> = regionKey \<lparr>pos_x = 10, pos_y = 0, pos_z = 10\<rparr>"
proof -
  have fl: "\<lfloor>real_of_int a / 256\<rfloor> = a div 256" for a
    using floor_divide_of_int_eq [of a 256, where ?'a = real] by simp
  show ?thesis
    by (simp add: regionKey_eq_iff fl)
qed

text \<open>
  Claim C7. For two blocks at distinct positions, marking the one (opened or placed) does
  not change whether the other is eligible: distinct positions have distinct position
  keys, and a mark adds the one position key to the one regional set of its own tracking
  kind and changes nothing else of either kind.
\<close>

theorem mark_frame:
  assumes "location b \<noteq> location c"
  shows "posKey (location b) \<noteq> posKey (location c) \<and>
    canInjectChest (markChestOpened b w) c = canInjectChest w c \<and>
    canInjectChest (markChestPlaced b w) c = canInjectChest w c \<and>
    (\<forall>q key. hasKey (getChestSet (markChestOpened b w) OPENED_CHESTS_KEY q) key =
       (regionKey q = regionKey (location b) \<and> key = posKey (location b) \<or>
        hasKey (getChestSet w OPENED_CHESTS_KEY q) key)) \<and>
    (\<forall>q. getChestSet (markChestOpened b w) PLACED_CHESTS_KEY q =
       getChestSet w PLACED_CHESTS_KEY q) \<and>
    (\<forall>q key. hasKey (getChestSet (markChestPlaced b w) PLACED_CHESTS_KEY q) key =
       (regionKey q = regionKey (location b) \<and> key = posKey (location b) \<or>
        hasKey (getChestSet w PLACED_CHESTS_KEY q) key)) \<and>
    (\<forall>q. getChestSet (markChestPlaced b w) OPENED_CHESTS_KEY q =
       getChestSet w OPENED_CHESTS_KEY q)"
proof -
  have keys: "posKey (location b) \<noteq> posKey (location c)"
    using assms by (simp add: posKey_eq_iff)
  have opened: "canInjectChest (markChestOpened b w) c = canInjectChest w c"
    using assms by (simp add: canInjectChest_markChestOpened)
  have placed: "canInjectChest (markChestPlaced b w) c = canInjectChest w c"
    using assms by (simp add: canInjectChest_markChestPlaced)
  have o_o: "hasKey (getChestSet (markChestOpened b w) OPENED_CHESTS_KEY q) key =
       (regionKey q = regionKey (location b) \<and> key = posKey (location b) \<or>
        hasKey (getChestSet w OPENED_CHESTS_KEY q) key)" for q key
    by (simp add: hasKey_markChestOpened regionPropertyKey_eq_iff)
  have o_p: "getChestSet (markChestOpened b w) PLACED_CHESTS_KEY q =
      getChestSet w PLACED_CHESTS_KEY q" for q
    by (simp add: markChestOpened_def Let_def getChestSet_saveChestSet kinds_differ)
  have p_p: "hasKey (getChestSet (markChestPlaced b w) PLACED_CHESTS_KEY q) key =
       (regionKey q = regionKey (location b) \<and> key = posKey (location b) \<or>
        hasKey (getChestSet w PLACED_CHESTS_KEY q) key)" for q key
    by (simp add: hasKey_markChestPlaced regionPropertyKey_eq_iff)
  have p_o: "getChestSet (markChestPlaced b w) OPENED_CHESTS_KEY q =
      getChestSet w OPENED_CHESTS_KEY q" for q
    by (simp add: markChestPlaced_def Let_def getChestSet_saveChestSet kinds_differ)
  from keys opened placed o_o o_p p_p p_o show ?thesis by blast
qed

theorem mark_frame_witness:
  "location (chestAt 0 64 0) \<noteq> location (chestAt 10 64 10) \<and>
   posKey (location (chestAt 0 64 0)) \<noteq> posKey (location (chestAt 10 64 10)) \<and>
   canInjectChest (markChestOpened (chestAt 0 64 0) freshWorld) (chestAt 10 64 10) \<and>
   canInjectChest (markChestPlaced (chestAt 0 64 0) freshWorld) (chestAt 10 64 10)"
proof -
  have ne: "location (chestAt 0 64 0) \<noteq> location (chestAt 10 64 10)"
    by (simp add: chestAt_location)
  have fresh: "canInjectChest freshWorld (chestAt 10 64 10)"
    by (rule canInjectChest_fresh) (simp add: freshWorld_def)
  from mark_frame [OF ne, of freshWorld] ne fresh show ?thesis by simp
qed

text \<open>
  Claim C6. After any history of marks and eligibility reads, a position is eligible
  exactly when it was eligible before and no mark of the history was at it. In a world
  without tracking data every position is eligible, so there a position is eligible after
  a history exactly when it was never marked. Once a position has been marked opened or
  placed it is not eligible, whatever reads and marks follow.
\<close>

theorem canInjectChest_history:
  "(canInjectChest (fold apply_op ts w) b \<longleftrightarrow>
      canInjectChest w b \<and> Some (location b) \<notin> op_marks ` set ts) \<and>
   canInjectChest (w\<lparr>dynamicProperties := []\<rparr>) b \<and>
   (canInjectChest (fold apply_op ts (w\<lparr>dynamicProperties := []\<rparr>)) b \<longleftrightarrow>
      Some (location b) \<notin> op_marks ` set ts) \<and>
   \<not> canInjectChest (fold apply_op ts (markChestOpened b w)) b \<and>
   \<not> canInjectChest (fold apply_op ts (markChestPlaced b w)) b"
  by (auto simp: canInjectChest_fold canInjectChest_fresh canInjectChest_markChestOpened
      canInjectChest_markChestPlaced)

theorem canInjectChest_history_witness:
  "canInjectChest (fold apply_op [MarkOpened (chestAt 300 64 0), CanInject (chestAt 0 64 0),
      MarkPlaced (chestAt 0 65 0)] (freshWorld\<lparr>dynamicProperties := []\<rparr>)) (chestAt 0 64 0) \<and>
   \<not> canInjectChest (fold apply_op [CanInject (chestAt 0 64 0), CanInject (chestAt 0 64 0)]
      (markChestOpened (chestAt 0 64 0) freshWorld)) (chestAt 0 64 0)"
  using canInjectChest_history [of "[MarkOpened (chestAt 300 64 0), CanInject (chestAt 0 64 0),
      MarkPlaced (chestAt 0 65 0)]" freshWorld "chestAt 0 64 0"]
    canInjectChest_history [of "[CanInject (chestAt 0 64 0), CanInject (chestAt 0 64 0)]"
      freshWorld "chestAt 0 64 0"]
  by (simp add: chestAt_location)

text \<open>
  Claim C9. After \<open>resetChestTracking\<close> no dynamic property whose name starts with
  either tracking key is left, the other properties are as before, and every position is
  eligible, also one that had been marked opened or placed.
\<close>

theorem resetChestTracking_clears:
  "(\<forall>k. getDynamicProperty (resetChestTracking w) k =
      (if prefix PLACED_CHESTS_KEY k \<or> prefix OPENED_CHESTS_KEY k then None
       else getDynamicProperty w k)) \<and>
   (\<forall>b. canInjectChest (resetChestTracking w) b) \<and>
   canInjectChest (resetChestTracking (markChestOpened c w)) c \<and>
   canInjectChest (resetChestTracking (markChestPlaced c w)) c"
  by (simp add: getDynamicProperty_reset canInjectChest_reset)

theorem resetChestTracking_clears_witness:
  "getDynamicProperty (resetChestTracking (markChestOpened (chestAt 0 64 0) freshWorld))
      ''dorios:opened_chests:0,0'' = None \<and>
   \<not> canInjectChest (markChestOpened (chestAt 0 64 0) freshWorld) (chestAt 0 64 0) \<and>
   canInjectChest (resetChestTracking (markChestOpened (chestAt 0 64 0) freshWorld))
      (chestAt 0 64 0)"
  using resetChestTracking_clears [of "markChestOpened (chestAt 0 64 0) freshWorld" "chestAt 0 64 0"]
  by (simp add: OPENED_CHESTS_KEY_def canInjectChest_markChestOpened)

subsection \<open>Plain objects\<close>

text \<open>
  A position key contains a comma, so it names no member of \<open>Object.prototype\<close>: the
  test \<open>set[key]\<close> on a parsed chest set finds an own property or nothing, which is what
  \<open>hasKey\<close> says.
\<close>

lemma posKey_not_inherited: "posKey p \<notin> set objectPrototypeKeys"
proof -
  have "CHR '','' \<in> set (posKey p)"
    by (simp add: posKey_def)
  moreover have "\<forall>k \<in> set objectPrototypeKeys. CHR '','' \<notin> set k"
    by (simp add: objectPrototypeKeys_def)
  ultimately show ?thesis by blast
qed





lemma objectEntries_initialStructures: "objectEntries initialStructures = initialStructures"
  by code_simp

lemma isArrayIndex_examples:
  "isArrayIndex ''7''" "isArrayIndex ''0''" "\<not> isArrayIndex ''07''"
  "\<not> isArrayIndex ''desert_pyramid''" "\<not> isArrayIndex ''4294967295''"
  "isArrayIndex ''4294967294''" "\<not> isArrayIndex []" "\<not> isArrayIndex ''-1''"
  by code_simp+

subsection \<open>Structure registration\<close>






subsection \<open>The entry point\<close>

lemma injectLoot_dynamicProperties:
  "dynamicProperties (injectLoot addItem t b w) = dynamicProperties w"
  by (simp add: injectLoot_def Let_def split: option.splits)

lemma getChestSet_injectLoot:
  "getChestSet (injectLoot addItem t b w) k p = getChestSet w k p"
  by (simp add: getChestSet_def getDynamicProperty_def injectLoot_dynamicProperties)

lemma canInjectChest_injectLoot:
  "canInjectChest (injectLoot addItem t b w) c = canInjectChest w c"
  by (simp add: canInjectChest_iff getChestSet_injectLoot)

lemma injectLoot_Nil: "injectLoot addItem [] b w = w"
  by (simp add: injectLoot_def)

lemma resolve_eligible:
  "canInjectChest w b \<Longrightarrow>
     resolve addItem w b = injectLoot addItem (finalLootOf w b) b (markChestOpened b w)"
  by (simp add: resolve_def Let_def injectLoot_Nil)

lemma resolve_ineligible: "\<not> canInjectChest w b \<Longrightarrow> resolve addItem w b = w"
  by (simp add: resolve_def)

lemma canInjectChest_resolve:
  "canInjectChest (resolve addItem w b) c \<longleftrightarrow>
     canInjectChest w c \<and> (canInjectChest w b \<longrightarrow> location c \<noteq> location b)"
  by (cases "canInjectChest w b")
     (auto simp: resolve_eligible resolve_ineligible canInjectChest_injectLoot
        canInjectChest_markChestOpened)

lemma canInjectChest_location:
  "location c = location b \<Longrightarrow> canInjectChest w c = canInjectChest w b"
  by (simp add: canInjectChest_iff)

lemma scan_unloaded:
  "(\<And>d. blockAt dimn origin d = None) \<Longrightarrow> fold (countCell dimn origin) ds acc = acc"
  by (induction ds arbitrary: acc) (simp_all add: countCell_def)

lemma blockAt_overworld: "blockAt overworld origin d = None"
  by (simp add: blockAt_def overworld_def split: prod.splits)

lemma detect_overworld:
  "structures w = initialStructures \<Longrightarrow>
     detectNearbyStructure w (chestAt a h c) radius = ''default''"
  by (simp add: detectNearbyStructure_def scanArea_def scan_unloaded blockAt_overworld
      chestAt_def objectEntries_initialStructures)
     (simp add: initialStructures_def countOf_def)

lemma finalLootOf_lootWorld: "finalLootOf lootWorld (chestAt 0 64 0) = [(''gold_ingot'', 1)]"
proof -
  have "detectNearbyStructure lootWorld (chestAt 0 64 0) 6 = ''default''"
    by (rule detect_overworld) (simp add: lootWorld_def)
  then show ?thesis
    by (simp add: finalLootOf_def Let_def chestAt_def overworld_def lootWorld_def
        mergeLootTables_def addStructureEntry_def skipped_def addChance_def lootOf_def)
qed

lemma inject_lootWorld:
  "containers (injectLoot (\<lambda>i c. c @ [i]) [(''gold_ingot'', 1)] (chestAt 0 64 0)
      (markChestOpened (chestAt 0 64 0) lootWorld)) (location (chestAt 0 64 0)) =
     Some [''gold_ingot'']"
  by (simp add: injectLoot_def Let_def markChestOpened_def saveChestSet_def
      setDynamicProperty_def lootWorld_def)

text \<open>
  Claim C1. When the block is eligible, \<open>resolve\<close> leaves its position key in the opened
  set of its region, whatever the merged table is: the dynamic properties after
  \<open>resolve\<close> are those after \<open>markChestOpened\<close>, with an empty merged table the whole
  result is the marked world, and otherwise the injection runs on the marked world. A
  second \<open>resolve\<close> on a block at the same position returns the world unchanged.
\<close>

theorem resolve_marks_opened:
  assumes "canInjectChest w b"
  shows "hasKey (getChestSet (resolve addItem w b) OPENED_CHESTS_KEY (location b))
           (posKey (location b)) \<and>
         \<not> canInjectChest (resolve addItem w b) b \<and>
         dynamicProperties (resolve addItem w b) = dynamicProperties (markChestOpened b w) \<and>
         (finalLootOf w b = [] \<longrightarrow> resolve addItem w b = markChestOpened b w) \<and>
         resolve addItem w b =
           injectLoot addItem (finalLootOf w b) b (markChestOpened b w) \<and>
         (\<forall>c. location c = location b \<longrightarrow>
            resolve addItem (resolve addItem w b) c = resolve addItem w b)"
proof -
  have r: "resolve addItem w b = injectLoot addItem (finalLootOf w b) b (markChestOpened b w)"
    using assms by (rule resolve_eligible)
  have marked: "hasKey (getChestSet (resolve addItem w b) OPENED_CHESTS_KEY (location b))
           (posKey (location b))"
    by (simp add: r getChestSet_injectLoot hasKey_markChestOpened)
  have inel: "\<not> canInjectChest (resolve addItem w b) c" if "location c = location b" for c
    using that by (simp add: canInjectChest_resolve assms)
  have props: "dynamicProperties (resolve addItem w b) = dynamicProperties (markChestOpened b w)"
    by (simp add: r injectLoot_dynamicProperties)
  have empty: "finalLootOf w b = [] \<longrightarrow> resolve addItem w b = markChestOpened b w"
    by (simp add: r injectLoot_Nil)
  have again: "resolve addItem (resolve addItem w b) c = resolve addItem w b"
    if "location c = location b" for c
    using inel [OF that] by (rule resolve_ineligible)
  from marked inel [of b] props empty r again show ?thesis by blast
qed

lemma marked_lootWorld:
  "dynamicProperties (markChestOpened (chestAt 0 64 0) lootWorld) =
     [(''dorios:opened_chests:0,0'', [''0,64,0''])]"
  by code_simp

theorem resolve_marks_opened_witness:
  "canInjectChest lootWorld (chestAt 0 64 0) \<and>
   finalLootOf lootWorld (chestAt 0 64 0) = [(''gold_ingot'', 1)] \<and>
   dynamicProperties (resolve (\<lambda>i c. c @ [i]) lootWorld (chestAt 0 64 0)) =
     [(''dorios:opened_chests:0,0'', [''0,64,0''])] \<and>
   containers (resolve (\<lambda>i c. c @ [i]) lootWorld (chestAt 0 64 0)) (location (chestAt 0 64 0)) =
     Some [''gold_ingot''] \<and>
   \<not> canInjectChest (resolve (\<lambda>i c. c @ [i]) lootWorld (chestAt 0 64 0)) (chestAt 0 64 0) \<and>
   resolve (\<lambda>i c. c @ [i]) (resolve (\<lambda>i c. c @ [i]) lootWorld (chestAt 0 64 0)) (chestAt 0 64 0) =
     resolve (\<lambda>i c. c @ [i]) lootWorld (chestAt 0 64 0)"
proof -
  have fresh: "canInjectChest lootWorld (chestAt 0 64 0)"
    by (rule canInjectChest_fresh) (simp add: lootWorld_def)
  from resolve_marks_opened [OF fresh, of "\<lambda>i c. c @ [i]"] fresh
    finalLootOf_lootWorld inject_lootWorld marked_lootWorld
  show ?thesis by metis
qed

text \<open>
  Claim C5. When the position key of the block is in the placed set or in the opened set
  of its region, \<open>resolve\<close> returns the world as it was: dynamic properties,
  inventories and random source included.
\<close>

theorem resolve_ineligible_noop:
  assumes "hasKey (getChestSet w PLACED_CHESTS_KEY (location b)) (posKey (location b)) \<or>
           hasKey (getChestSet w OPENED_CHESTS_KEY (location b)) (posKey (location b))"
  shows "resolve addItem w b = w"
  using assms by (auto simp: resolve_def canInjectChest_iff)

theorem resolve_ineligible_noop_witness:
  "hasKey (getChestSet (markChestPlaced (chestAt 0 64 0) freshWorld) PLACED_CHESTS_KEY
      (location (chestAt 0 64 0))) (posKey (location (chestAt 0 64 0))) \<and>
   resolve (\<lambda>i c. c @ [i]) (markChestPlaced (chestAt 0 64 0) freshWorld) (chestAt 0 64 0) =
     markChestPlaced (chestAt 0 64 0) freshWorld"
proof -
  have placed: "hasKey (getChestSet (markChestPlaced (chestAt 0 64 0) freshWorld) PLACED_CHESTS_KEY
      (location (chestAt 0 64 0))) (posKey (location (chestAt 0 64 0)))"
    by (simp add: hasKey_markChestPlaced)
  from resolve_ineligible_noop [of "markChestPlaced (chestAt 0 64 0) freshWorld" "chestAt 0 64 0"
      "\<lambda>i c. c @ [i]"] placed
  show ?thesis by simp
qed

subsection \<open>Structure detection\<close>

lemma cellCount_Nil: "cellCount dimn origin [] t = 0"
  by (simp add: cellCount_def)

lemma cellCount_Cons:
  "cellCount dimn origin (d # ds) t =
     (if blockAt dimn origin d = Some t then 1 else 0) + cellCount dimn origin ds t"
  by (simp add: cellCount_def)

lemma countCell_fst:
  "map_of (fst (countCell dimn origin d acc)) t =
     (if blockAt dimn origin d = Some t then Some (countOf (fst acc) t + 1)
      else map_of (fst acc) t)"
  by (auto simp: countCell_def update_conv' split: option.splits)



lemma scan_fold_fst:
  "map_of (fst (fold (countCell dimn origin) ds acc)) t =
     (if cellCount dimn origin ds t = 0 then map_of (fst acc) t
      else Some (countOf (fst acc) t + cellCount dimn origin ds t))"
proof (induction ds arbitrary: acc)
  case Nil
  then show ?case by (simp add: cellCount_Nil)
next
  case (Cons d ds)
  show ?case
    by (simp add: Cons.IH cellCount_Cons countCell_fst countOf_def)
qed

lemma scanArea_map_of:
  "map_of (fst (scanArea dimn origin radius)) t =
     (if observedCount dimn origin radius t = 0 then None
      else Some (observedCount dimn origin radius t))"
  by (simp add: scanArea_def scan_fold_fst observedCount_def cellCount_def countOf_def)


lemma scanArea_has:
  "map_of (fst (scanArea dimn origin radius)) t \<noteq> None \<longleftrightarrow>
     observedCount dimn origin radius t \<ge> 1"
  by (simp add: scanArea_map_of)







lemma pyramidSite_counts:
  "observedCount pyramidSite (location pyramidChest) 1 ''minecraft:sand'' = 13 \<and>
   observedCount pyramidSite (location pyramidChest) 1 ''minecraft:sandstone'' = 6 \<and>
   observedCount pyramidSite (location pyramidChest) 1 ''minecraft:chest'' = 1"
  by code_simp





subsection \<open>Loot resolution\<close>

lemma map_of_addChance:
  "map_of (addChance e m) i =
     (if item e = i then Some ((case map_of m i of None \<Rightarrow> 0 | Some c \<Rightarrow> c) + chance e)
      else map_of m i)"
  by (auto simp: addChance_def update_conv')

text \<open>
  One loop of the merge: the chances of the entries of an item are added one after the
  other, in the order of the list, to what the table held for the item, or to 0.
\<close>

lemma map_of_fold_addChance:
  "map_of (fold addChance es m) i =
     (case map chance (filter (\<lambda>e. item e = i) es) of
        [] \<Rightarrow> map_of m i
      | c # cs \<Rightarrow> Some (foldl (+) (case map_of m i of None \<Rightarrow> 0 | Some v \<Rightarrow> v) (c # cs)))"
proof (induction es arbitrary: m)
  case Nil
  then show ?case by simp
next
  case (Cons e es)
  show ?case
    by (simp add: Cons.IH map_of_addChance split: list.splits)
qed

lemma fold_addStructureEntry:
  "fold (addStructureEntry ctx) es m = fold addChance (filter (\<lambda>e. \<not> skipped ctx e) es) m"
  by (induction es arbitrary: m) (simp_all add: addStructureEntry_def)

lemma mergeLootTables_fold:
  "mergeLootTables bt st ctx =
     fold addChance
       (tableEntries bt @ filter (\<lambda>e. \<not> skipped ctx e) (tableEntries st)) []"
  by (simp add: mergeLootTables_def tableEntries_def fold_addStructureEntry Let_def
      split: option.splits)

lemma skipped_iff:
  "skipped ctx e \<longleftrightarrow>
     (\<exists>cond. conditions e = Some cond \<and>
        ((\<exists>d. dimension cond = Some d \<and> d \<noteq> [] \<and> d \<noteq> dimensionId ctx) \<or>
         (\<exists>bs. biomes cond = Some bs \<and> biomeId ctx \<notin> set bs)))"
  by (auto simp: skipped_def split: option.splits)

lemma mergeLootTables_two:
  "mergeLootTables (Some [lootOf k a]) (Some [lootOf k b]) ctx = [(k, 0 + a + b)]"
  by (simp add: mergeLootTables_def addStructureEntry_def skipped_def addChance_def lootOf_def)

text \<open>
  Claim C4, as amended. The merged table has an entry for an item exactly when the biome
  table or an unskipped entry of the structure table names it, and the entry is the result
  of adding to 0, one after the other, the chances of the biome entries for the item in
  table order and then those of its unskipped structure entries in table order; nothing
  clamps it. A structure entry is skipped exactly when it has conditions whose dimension
  is a non-empty string that differs from the dimension of the context, or whose biomes
  list does not contain the biome of the context. An item with one entry of chance \<open>a\<close>
  in the biome table and one unconditional entry of chance \<open>b\<close> in the structure table
  gets \<open>0 + a + b\<close>.
\<close>

theorem mergeLootTables_sums:
  "map_of (mergeLootTables bt st ctx) i =
     (case chancesFor i bt st ctx of
        [] \<Rightarrow> None
      | c # cs \<Rightarrow> Some (foldl (+) 0 (c # cs))) \<and>
   (skipped ctx e \<longleftrightarrow>
     (\<exists>cond. conditions e = Some cond \<and>
        ((\<exists>d. dimension cond = Some d \<and> d \<noteq> [] \<and> d \<noteq> dimensionId ctx) \<or>
         (\<exists>bs. biomes cond = Some bs \<and> biomeId ctx \<notin> set bs)))) \<and>
   mergeLootTables (Some [lootOf k a]) (Some [lootOf k b]) ctx = [(k, 0 + a + b)]"
proof -
  have sums: "map_of (mergeLootTables bt st ctx) i =
     (case chancesFor i bt st ctx of
        [] \<Rightarrow> None
      | c # cs \<Rightarrow> Some (foldl (+) 0 (c # cs)))"
    unfolding mergeLootTables_fold map_of_fold_addChance chancesFor_def
    by (simp split: list.splits)
  from sums skipped_iff [of ctx e] mergeLootTables_two [of k a b ctx] show ?thesis
    by blast
qed

theorem mergeLootTables_sums_witness:
  "map_of (mergeLootTables None (Some [plainsOnly])
      \<lparr>biomeId = ''desert'', dimensionId = ''minecraft:overworld''\<rparr>) ''x'' = None \<and>
   map_of (mergeLootTables (Some [lootOf ''x'' (3 / 4)]) (Some [plainsOnly])
      \<lparr>biomeId = ''plains'', dimensionId = ''minecraft:overworld''\<rparr>) ''x'' =
     Some (5 / 4 :: real)"
  using mergeLootTables_sums [THEN conjunct1, of None "Some [plainsOnly]"
      "\<lparr>biomeId = ''desert'', dimensionId = ''minecraft:overworld''\<rparr>" "''x''"]
    mergeLootTables_sums [THEN conjunct1, of "Some [lootOf ''x'' (3 / 4)]" "Some [plainsOnly]"
      "\<lparr>biomeId = ''plains'', dimensionId = ''minecraft:overworld''\<rparr>" "''x''"]
  by (simp add: tableEntries_def chancesFor_def skipped_def plainsOnly_def lootOf_def)

text \<open>
  The claim as stated skips every structure entry whose \<open>conditions.dimension\<close> differs
  from the dimension of the context. The source tests \<open>cond.dimension\<close> for truthiness
  first, so an entry whose dimension is the empty string is not skipped: it differs from
  the dimension of the context, and its chance is in the merged table.
\<close>

theorem mergeLootTables_empty_dimension:
  "skipClaimed \<lparr>biomeId = ''minecraft:desert'', dimensionId = ''minecraft:overworld''\<rparr>
     emptyDimension \<and>
   \<not> skipped \<lparr>biomeId = ''minecraft:desert'', dimensionId = ''minecraft:overworld''\<rparr>
     emptyDimension \<and>
   mergeLootTables None (Some [emptyDimension])
     \<lparr>biomeId = ''minecraft:desert'', dimensionId = ''minecraft:overworld''\<rparr> =
     [(''x'', 1 / 2)]"
  by (simp add: skipClaimed_def skipped_def emptyDimension_def mergeLootTables_def
      addStructureEntry_def addChance_def)

subsection \<open>Loot registration\<close>

lemma keyed_Nil: "keyed []"
  by (simp add: keyed_def)

lemma set_update_subset: "set (AList.update k v m) \<subseteq> insert (k, v) (set m)"
  by (induction m) auto

lemma keyed_update: "keyed m \<Longrightarrow> keyed (AList.update (item e) e m)"
  using set_update_subset [of "item e" e m]
  by (auto simp: keyed_def distinct_update)

lemma keyed_setExisting_fold:
  "keyed m \<Longrightarrow> keyed (fold (\<lambda>entry m. AList.update (item entry) entry m) es m)"
  by (induction es arbitrary: m) (simp_all add: keyed_update)

lemma keyed_setExisting: "keyed (setExisting es)"
  by (simp add: setExisting_def keyed_setExisting_fold keyed_Nil)

lemma keyed_setNew: "keyed m \<Longrightarrow> keyed (setNew e m)"
  by (simp add: setNew_def keyed_update split: option.splits)

lemma keyed_fold_setNew: "keyed m \<Longrightarrow> keyed (fold setNew es m)"
  by (induction es arbitrary: m) (simp_all add: keyed_setNew)

lemma keyed_items: "keyed m \<Longrightarrow> map item (map snd m) = map fst m"
  by (induction m) (auto simp: keyed_def)

lemma mergeRegistered_distinct: "distinct (map item (mergeRegistered existing loot))"
proof -
  have k: "keyed (fold setNew loot (setExisting existing))"
    by (simp add: keyed_fold_setNew keyed_setExisting)
  then show ?thesis
    unfolding mergeRegistered_def keyed_items [OF k] by (simp add: keyed_def)
qed

lemma better_None: "better e None = Some e"
  by (simp add: better_def)

lemma better_Some:
  "better e (Some prev) = (if chance e > chance prev then Some e else Some prev)"
  by (simp add: better_def)

lemma map_of_setNew:
  "map_of (setNew e m) i = (if item e = i then better e (map_of m i) else map_of m i)"
  by (auto simp: setNew_def better_def update_conv' split: option.splits)

lemma map_of_fold_setNew:
  "map_of (fold setNew es m) i = fold better (filter (\<lambda>e. item e = i) es) (map_of m i)"
  by (induction es arbitrary: m) (simp_all add: map_of_setNew)

lemma map_of_setExisting_fold:
  "distinct (map item es) \<Longrightarrow> \<forall>e \<in> set es. map_of m (item e) = None \<Longrightarrow>
   map_of (fold (\<lambda>entry m. AList.update (item entry) entry m) es m) i =
     (case find (\<lambda>e. item e = i) es of None \<Rightarrow> map_of m i | Some e \<Rightarrow> Some e)"
proof (induction es arbitrary: m)
  case Nil
  then show ?case by simp
next
  case (Cons e es)
  have "map_of (AList.update (item e) e m) (item e') = None" if "e' \<in> set es" for e'
  proof -
    from that Cons.prems(1) have "item e' \<noteq> item e" by (auto simp: image_iff)
    with that Cons.prems(2) show ?thesis by (simp add: update_conv')
  qed
  then have absent: "\<forall>e' \<in> set es. map_of (AList.update (item e) e m) (item e') = None"
    by blast
  have "distinct (map item es)" using Cons.prems by simp
  from this absent have "map_of (fold (\<lambda>entry m. AList.update (item entry) entry m) es
        (AList.update (item e) e m)) i =
     (case find (\<lambda>e. item e = i) es of None \<Rightarrow> map_of (AList.update (item e) e m) i
      | Some e \<Rightarrow> Some e)"
    by (rule Cons.IH)
  moreover have "find (\<lambda>e. item e = i) es = None" if "item e = i"
    using that Cons.prems(1) by (auto simp: find_None_iff image_iff)
  ultimately show ?case
    using Cons.prems(2)
    by (auto simp: update_conv' split: option.splits)
qed

lemma map_of_setExisting:
  "distinct (map item es) \<Longrightarrow> map_of (setExisting es) i = find (\<lambda>e. item e = i) es"
  by (simp add: setExisting_def map_of_setExisting_fold split: option.splits)

lemma fold_better_Some:
  "\<exists>r. fold better es (Some (p :: ('n::{zero,plus,linorder}) lootEntry)) = Some r \<and> (r = p \<or> r \<in> set es) \<and> chance p \<le> chance r \<and>
       (\<forall>e \<in> set es. chance e \<le> chance r) \<and> (chance r = chance p \<longrightarrow> r = p)"
proof (induction es arbitrary: p)
  case Nil
  then show ?case by simp
next
  case (Cons e es)
  show ?case
  proof (cases "chance e > chance p")
    case True
    from Cons.IH [of e] obtain r where "fold better es (Some e) = Some r"
      "r = e \<or> r \<in> set es" "chance e \<le> chance r" "\<forall>e \<in> set es. chance e \<le> chance r"
      by blast
    with True show ?thesis by (auto simp: better_Some)
  next
    case False
    from Cons.IH [of p] obtain r where "fold better es (Some p) = Some r"
      "r = p \<or> r \<in> set es" "chance p \<le> chance r" "\<forall>e \<in> set es. chance e \<le> chance r"
      "chance r = chance p \<longrightarrow> r = p"
      by blast
    with False show ?thesis by (auto simp: better_Some)
  qed
qed

lemma fold_better_None:
  "fold better (es :: ('n::{zero,plus,linorder}) lootEntry list) None = None \<longleftrightarrow> es = []"
proof (cases es)
  case Nil
  then show ?thesis by simp
next
  case (Cons e es')
  from fold_better_Some [of es' e] Cons show ?thesis by (auto simp: better_None)
qed

lemma fold_better_None_Some:
  "fold better es None = Some (r :: ('n::{zero,plus,linorder}) lootEntry) \<Longrightarrow> r \<in> set es \<and> (\<forall>e \<in> set es. chance e \<le> chance r)"
proof (cases es)
  case Nil
  assume "fold better es None = Some r"
  with Nil show ?thesis by simp
next
  case (Cons e es')
  assume a: "fold better es None = Some r"
  from fold_better_Some [of es' e] a Cons show ?thesis by (auto simp: better_None)
qed


lemma keyed_member:
  assumes "keyed m"
  shows "r \<in> set (map snd m) \<longleftrightarrow> map_of m (item r) = Some r"
proof
  assume "r \<in> set (map snd m)"
  then obtain k where kr: "(k, r) \<in> set m" by auto
  with assms have "item r = k" by (auto simp: keyed_def)
  moreover from assms kr have "map_of m k = Some r" by (simp add: keyed_def)
  ultimately show "map_of m (item r) = Some r" by simp
next
  assume "map_of m (item r) = Some r"
  then have "(item r, r) \<in> set m" by (rule map_of_SomeD)
  then show "r \<in> set (map snd m)" by force
qed

lemma mergeRegistered_member:
  assumes "distinct (map item existing)"
  shows "r \<in> set (mergeRegistered existing loot) \<longleftrightarrow>
     fold better (filter (\<lambda>e. item e = item r) loot) (find (\<lambda>e. item e = item r) existing)
       = Some r"
proof -
  have k: "keyed (fold setNew loot (setExisting existing))"
    by (simp add: keyed_fold_setNew keyed_setExisting)
  show ?thesis
    unfolding mergeRegistered_def keyed_member [OF k]
    by (simp add: map_of_fold_setNew map_of_setExisting [OF assms])
qed

lemma distinct_items_unique:
  "distinct (map item es) \<Longrightarrow> e \<in> set es \<Longrightarrow> p \<in> set es \<Longrightarrow> item e = item p \<Longrightarrow> e = p"
  by (meson distinct_map inj_on_eq_iff)

lemma find_SomeD: "find P xs = Some p \<Longrightarrow> p \<in> set xs \<and> P p"
  by (induction xs) (auto split: if_splits)

lemma find_NoneD: "find P xs = None \<Longrightarrow> x \<in> set xs \<Longrightarrow> \<not> P x"
  by (induction xs) (auto split: if_splits)

lemma mergeRegistered_best:
  assumes d: "distinct (map item (existing :: ('n::{zero,plus,linorder}) lootEntry list))" and r: "r \<in> set (mergeRegistered existing loot)"
  shows "r \<in> set existing \<union> set loot"
    and "e \<in> set existing \<union> set loot \<Longrightarrow> item e = item r \<Longrightarrow> chance e \<le> chance r"
    and "e \<in> set existing \<Longrightarrow> item e = item r \<Longrightarrow> chance e = chance r \<Longrightarrow> r = e"
proof -
  let ?new = "filter (\<lambda>e. item e = item r) loot"
  from r have f: "fold better ?new (find (\<lambda>e. item e = item r) existing) = Some r"
    by (simp add: mergeRegistered_member [OF d])
  show "r \<in> set existing \<union> set loot"
  proof (cases "find (\<lambda>e. item e = item r) existing")
    case None
    with f fold_better_None_Some [of ?new r] have "r \<in> set ?new" by simp
    then show ?thesis by simp
  next
    case (Some p)
    from find_SomeD [OF Some] have "p \<in> set existing" by simp
    moreover from fold_better_Some [of ?new p] f Some have "r = p \<or> r \<in> set ?new" by simp
    ultimately show ?thesis by auto
  qed
  show "chance e \<le> chance r" if e: "e \<in> set existing \<union> set loot" "item e = item r"
  proof (cases "find (\<lambda>e. item e = item r) existing")
    case None
    from find_NoneD [OF None, of e] e have "e \<in> set ?new" by auto
    moreover from f None fold_better_None_Some [of ?new r]
    have "\<forall>x \<in> set ?new. chance x \<le> chance r" by simp
    ultimately show ?thesis by blast
  next
    case (Some p)
    from find_SomeD [OF Some] have p: "p \<in> set existing" "item p = item r" by simp_all
    from fold_better_Some [of ?new p] f Some
    have le: "chance p \<le> chance r" "\<forall>x \<in> set ?new. chance x \<le> chance r" by simp_all
    show ?thesis
    proof (cases "e \<in> set existing")
      case True
      from distinct_items_unique [OF d True p(1)] e(2) p(2) have "e = p" by simp
      with le(1) show ?thesis by simp
    next
      case False
      with e have "e \<in> set ?new" by simp
      with le(2) show ?thesis by blast
    qed
  qed
  show "r = e" if e: "e \<in> set existing" "item e = item r" "chance e = chance r"
  proof (cases "find (\<lambda>e. item e = item r) existing")
    case None
    from find_NoneD [OF None e(1)] e(2) show ?thesis by simp
  next
    case (Some p)
    from find_SomeD [OF Some] have p: "p \<in> set existing" "item p = item r" by simp_all
    from distinct_items_unique [OF d e(1) p(1)] e(2) p(2) have ep: "e = p" by simp
    from fold_better_Some [of ?new p] f Some have "chance r = chance p \<longrightarrow> r = p" by simp
    with ep e(3) show ?thesis by simp
  qed
qed

lemma mergeRegistered_covers:
  assumes d: "distinct (map item (existing :: ('n::{zero,plus,linorder}) lootEntry list))" and e: "e \<in> set existing \<union> set loot"
  shows "\<exists>r \<in> set (mergeRegistered existing loot). item r = item e"
proof -
  let ?new = "filter (\<lambda>x. item x = item e) loot"
  let ?old = "find (\<lambda>x. item x = item e) existing"
  have "\<exists>r. fold better ?new ?old = Some r \<and> item r = item e"
  proof (cases ?old)
    case None
    from find_NoneD [OF None, of e] e have "e \<in> set ?new" by auto
    then have "?new \<noteq> []" by (auto simp: filter_empty_conv)
    then have "fold better ?new None \<noteq> None" by (simp add: fold_better_None)
    then obtain r where fr: "fold better ?new None = Some r" by blast
    from fold_better_None_Some [OF fr] have "item r = item e" by simp
    with fr None show ?thesis by simp
  next
    case (Some p)
    from find_SomeD [OF Some] have p: "item p = item e" by simp
    from fold_better_Some [of ?new p] obtain r where
      fr: "fold better ?new (Some p) = Some r" and "r = p \<or> r \<in> set ?new" by blast
    with p have "item r = item e" by auto
    with fr Some show ?thesis by simp
  qed
  then obtain r where fr: "fold better ?new ?old = Some r" and ir: "item r = item e" by blast
  from fr ir have "r \<in> set (mergeRegistered existing loot)"
    by (simp add: mergeRegistered_member [OF d])
  with ir show ?thesis by blast
qed

lemma mergeRegistered_keeps_best:
  assumes "distinct (map item (existing :: ('n::{zero,plus,linorder}) lootEntry list))"
  shows "distinct (map item (mergeRegistered existing loot)) \<and>
     (\<forall>e \<in> set existing \<union> set loot. \<exists>r \<in> set (mergeRegistered existing loot). item r = item e) \<and>
     (\<forall>r \<in> set (mergeRegistered existing loot).
        r \<in> set existing \<union> set loot \<and>
        (\<forall>e \<in> set existing \<union> set loot. item e = item r \<longrightarrow> chance e \<le> chance r) \<and>
        (\<forall>e \<in> set existing. item e = item r \<and> chance e = chance r \<longrightarrow> r = e))"
  using mergeRegistered_distinct [of existing loot] mergeRegistered_covers [OF assms]
    mergeRegistered_best [OF assms]
  by blast

lemma registerBiomeLoot_stored:
  "biome \<notin> set objectPrototypeKeys \<Longrightarrow>
     registerBiomeLoot biome loot w =
       Inr (w\<lparr>biomeLoot :=
              AList.update biome (storedAfter (map_of (biomeLoot w) biome) loot) (biomeLoot w)\<rparr>)"
  by (simp add: registerBiomeLoot_def readProperty_def storedAfter_def split: option.splits)

lemma registerStructureLoot_stored:
  "sid \<notin> set objectPrototypeKeys \<Longrightarrow>
     registerStructureLoot sid loot w =
       Inr (w\<lparr>structureLoot :=
              AList.update sid (storedAfter (map_of (structureLoot w) sid) loot)
                (structureLoot w)\<rparr>)"
  by (simp add: registerStructureLoot_def readProperty_def storedAfter_def split: option.splits)

lemma registerLoot_inherited:
  "biome \<in> set objectPrototypeKeys \<Longrightarrow> map_of (biomeLoot w) biome = None \<Longrightarrow>
     registerBiomeLoot biome loot w = Inl TypeError"
  "sid \<in> set objectPrototypeKeys \<Longrightarrow> map_of (structureLoot w) sid = None \<Longrightarrow>
     registerStructureLoot sid loot w = Inl TypeError"
  by (simp_all add: registerBiomeLoot_def registerStructureLoot_def readProperty_def)

lemma bestOf_first:
  "distinct (map item (loot :: ('n::{zero,plus,linorder}) lootEntry list)) \<Longrightarrow> bestOf (set loot) loot"
  unfolding bestOf_def
proof (intro conjI ballI impI)
  fix r e assume d: "distinct (map item loot)" and "r \<in> set loot" "e \<in> set loot" "item e = item r"
  then have "e = r" by (auto intro: distinct_items_unique)
  then show "chance e \<le> chance r" by simp
qed auto

lemma bestOf_merge:
  assumes b: "bestOf S (t :: ('n::{zero,plus,linorder}) lootEntry list)"
  shows "bestOf (S \<union> set loot) (mergeRegistered t loot)"
proof -
  from b have d: "distinct (map item t)" by (simp add: bestOf_def)
  note kb = mergeRegistered_keeps_best [OF d, of loot]
  have cover: "\<exists>r \<in> set (mergeRegistered t loot). item r = item e" if "e \<in> S \<union> set loot" for e
  proof (cases "e \<in> set loot")
    case True
    with kb show ?thesis by blast
  next
    case False
    with that b obtain r0 where "r0 \<in> set t" "item r0 = item e" by (auto simp: bestOf_def)
    with kb show ?thesis by (metis UnI1)
  qed
  have mem: "r \<in> S \<union> set loot" if "r \<in> set (mergeRegistered t loot)" for r
    using that kb b by (auto simp: bestOf_def)
  have le: "chance e \<le> chance r"
    if r: "r \<in> set (mergeRegistered t loot)" and e: "e \<in> S \<union> set loot" "item e = item r" for r e
  proof (cases "e \<in> set loot")
    case True
    with kb r e show ?thesis by blast
  next
    case False
    with e b obtain r0 where r0: "r0 \<in> set t" "item r0 = item e" "chance e \<le> chance r0"
      by (auto simp: bestOf_def)
    from kb r r0 e have "chance r0 \<le> chance r" by (metis UnI1)
    with r0 show ?thesis by simp
  qed
  from kb cover mem le show ?thesis unfolding bestOf_def by blast
qed

lemma registrations_keep_best:
  assumes "distinct (map item (first :: ('n::{zero,plus,linorder}) lootEntry list))"
  shows "bestOf (set first \<union> \<Union> (set ` set later))
     (fold (\<lambda>loot t. storedAfter (Some t) loot) later (storedAfter None first))"
proof -
  have "bestOf S t \<Longrightarrow> bestOf (S \<union> \<Union> (set ` set later))
      (fold (\<lambda>loot t. storedAfter (Some t) loot) later t)" for S t
  proof (induction later arbitrary: S t)
    case Nil
    then show ?case by simp
  next
    case (Cons loot later)
    from bestOf_merge [OF Cons.prems, of loot]
    have "bestOf (S \<union> set loot) (storedAfter (Some t) loot)" by (simp add: storedAfter_def)
    from Cons.IH [OF this] show ?case by (simp add: Un_assoc)
  qed
  from this [OF bestOf_first [OF assms]] show ?thesis by (simp add: storedAfter_def)
qed

lemma registerEach_biomeLoot:
  "biome \<notin> set objectPrototypeKeys \<Longrightarrow>
     \<exists>w'. registerEach (registerBiomeLoot biome) regs w = Inr w' \<and>
          map_of (biomeLoot w') biome =
            fold (\<lambda>loot s. Some (storedAfter s loot)) regs (map_of (biomeLoot w) biome)"
proof (induction regs arbitrary: w)
  case Nil
  then show ?case by simp
next
  case (Cons loot regs)
  let ?w1 = "w\<lparr>biomeLoot :=
      AList.update biome (storedAfter (map_of (biomeLoot w) biome) loot) (biomeLoot w)\<rparr>"
  from Cons.prems have step: "registerBiomeLoot biome loot w = Inr ?w1"
    by (rule registerBiomeLoot_stored)
  from Cons.IH [OF Cons.prems, of ?w1] step show ?case
    by (simp add: update_conv')
qed

lemma registerEach_structureLoot:
  "sid \<notin> set objectPrototypeKeys \<Longrightarrow>
     \<exists>w'. registerEach (registerStructureLoot sid) regs w = Inr w' \<and>
          map_of (structureLoot w') sid =
            fold (\<lambda>loot s. Some (storedAfter s loot)) regs (map_of (structureLoot w) sid)"
proof (induction regs arbitrary: w)
  case Nil
  then show ?case by simp
next
  case (Cons loot regs)
  let ?w1 = "w\<lparr>structureLoot :=
      AList.update sid (storedAfter (map_of (structureLoot w) sid) loot) (structureLoot w)\<rparr>"
  from Cons.prems have step: "registerStructureLoot sid loot w = Inr ?w1"
    by (rule registerStructureLoot_stored)
  from Cons.IH [OF Cons.prems, of ?w1] step show ?case
    by (simp add: update_conv')
qed

lemma fold_storedAfter_Some:
  "fold (\<lambda>loot s. Some (storedAfter s loot)) regs (Some t) =
     Some (fold (\<lambda>loot t. storedAfter (Some t) loot) regs t)"
  by (induction regs arbitrary: t) simp_all

text \<open>
  Claim C2. The claim asks for at most one entry per item after any sequence of
  registrations, the entry of greater chance being kept. The first registration for an id
  stores the given list as it is, so a list that names an item twice is stored with both
  entries; and since the merge of a later registration loads the stored entries into its
  \<open>Map\<close> unconditionally, the later of two stored entries of an item survives, also when
  its chance is the smaller one. The same holds for \<open>registerStructureLoot\<close>.
\<close>

theorem registerLoot_first_list_unmerged:
  "registerBiomeLoot ''desert'' [lootOf ''x'' 0.2, lootOf ''x'' 0.5] freshWorld =
     Inr (freshWorld\<lparr>biomeLoot := [(''desert'', [lootOf ''x'' 0.2, lootOf ''x'' 0.5])]\<rparr>) \<and>
   registerStructureLoot ''mineshaft'' [lootOf ''x'' 0.2, lootOf ''x'' 0.5] freshWorld =
     Inr (freshWorld\<lparr>structureLoot :=
            [(''mineshaft'', [lootOf ''x'' 0.2, lootOf ''x'' 0.5])]\<rparr>) \<and>
   registerBiomeLoot ''desert'' [lootOf ''x'' 0.5, lootOf ''x'' 0.2] freshWorld =
     Inr (freshWorld\<lparr>biomeLoot := [(''desert'', [lootOf ''x'' 0.5, lootOf ''x'' 0.2])]\<rparr>) \<and>
   registerBiomeLoot ''desert'' []
       (freshWorld\<lparr>biomeLoot := [(''desert'', [lootOf ''x'' 0.5, lootOf ''x'' 0.2])]\<rparr>) =
     Inr (freshWorld\<lparr>biomeLoot := [(''desert'', [lootOf ''x'' 0.2])]\<rparr>)"
  by (simp add: registerBiomeLoot_def registerStructureLoot_def readProperty_def
      objectPrototypeKeys_def freshWorld_def mergeRegistered_def setExisting_def lootOf_def)

text \<open>
  When the list of the first registration for an id names no item twice, any sequence of
  registrations that follows leaves a table with one entry per registered item, each
  entry being one of the registered entries and of a chance at least that of every
  registered entry of its item. Nothing is summed: the stored entry is a registered one.
  Here the chances are taken from a linear order, and the id names no member of
  \<open>Object.prototype\<close>.
\<close>

theorem registered_loot_keeps_best:
  assumes "distinct (map item (first :: ('n::{zero,plus,linorder}) lootEntry list))"
    and "k \<notin> set objectPrototypeKeys"
  shows "(map_of (biomeLoot w) k = None \<longrightarrow>
      (\<exists>w' t. registerEach (registerBiomeLoot k) (first # later) w = Inr w' \<and>
           map_of (biomeLoot w') k = Some t \<and>
           bestOf (set first \<union> \<Union> (set ` set later)) t)) \<and>
     (map_of (structureLoot w) k = None \<longrightarrow>
      (\<exists>w' t. registerEach (registerStructureLoot k) (first # later) w = Inr w' \<and>
           map_of (structureLoot w') k = Some t \<and>
           bestOf (set first \<union> \<Union> (set ` set later)) t))"
proof -
  note best = registrations_keep_best [OF assms(1), of later]
  have seq: "fold (\<lambda>loot s. Some (storedAfter s loot)) (first # later) None =
      Some (fold (\<lambda>loot t. storedAfter (Some t) loot) later (storedAfter None first))"
    by (simp add: fold_storedAfter_Some)
  from registerEach_biomeLoot [OF assms(2), of "first # later" w] seq best
  have biome: "map_of (biomeLoot w) k = None \<longrightarrow>
      (\<exists>w' t. registerEach (registerBiomeLoot k) (first # later) w = Inr w' \<and>
           map_of (biomeLoot w') k = Some t \<and>
           bestOf (set first \<union> \<Union> (set ` set later)) t)"
    by (metis (no_types, lifting))
  from registerEach_structureLoot [OF assms(2), of "first # later" w] seq best
  have struct: "map_of (structureLoot w) k = None \<longrightarrow>
      (\<exists>w' t. registerEach (registerStructureLoot k) (first # later) w = Inr w' \<and>
           map_of (structureLoot w') k = Some t \<and>
           bestOf (set first \<union> \<Union> (set ` set later)) t)"
    by (metis (no_types, lifting))
  from biome struct show ?thesis by blast
qed

theorem registered_loot_keeps_best_witness:
  "distinct (map item [lootOf ''x'' 0.2, lootOf ''y'' (0.5 :: real)]) \<and>
   ''desert'' \<notin> set objectPrototypeKeys \<and>
   registerEach (registerBiomeLoot ''desert'')
      [[lootOf ''x'' 0.2, lootOf ''y'' 0.5], [lootOf ''x'' 0.5, lootOf ''x'' 0.1, lootOf ''y'' 0.5]]
      freshWorld =
     Inr (freshWorld\<lparr>biomeLoot := [(''desert'', [lootOf ''x'' 0.5, lootOf ''y'' 0.5])]\<rparr>) \<and>
   bestOf (set [lootOf ''x'' 0.2, lootOf ''y'' 0.5] \<union>
        \<Union> (set ` set [[lootOf ''x'' 0.5, lootOf ''x'' 0.1, lootOf ''y'' 0.5]]))
     [lootOf ''x'' 0.5, lootOf ''y'' (0.5 :: real)]"
proof -
  have d: "distinct (map item [lootOf ''x'' 0.2, lootOf ''y'' (0.5 :: real)])"
    by (simp add: lootOf_def)
  have k: "''desert'' \<notin> set objectPrototypeKeys"
    by (simp add: objectPrototypeKeys_def)
  have n: "map_of (biomeLoot freshWorld) ''desert'' = None"
    by (simp add: freshWorld_def)
  have v: "registerEach (registerBiomeLoot ''desert'')
      [[lootOf ''x'' 0.2, lootOf ''y'' 0.5], [lootOf ''x'' 0.5, lootOf ''x'' 0.1, lootOf ''y'' 0.5]]
      freshWorld =
     Inr (freshWorld\<lparr>biomeLoot := [(''desert'', [lootOf ''x'' 0.5, lootOf ''y'' 0.5])]\<rparr>)"
    by (simp add: registerBiomeLoot_def readProperty_def objectPrototypeKeys_def freshWorld_def
        mergeRegistered_def setExisting_def setNew_def lootOf_def)
  from registered_loot_keeps_best [OF d k, of freshWorld
      "[[lootOf ''x'' 0.5, lootOf ''x'' 0.1, lootOf ''y'' 0.5]]"] n
  obtain w' t where
    run: "registerEach (registerBiomeLoot ''desert'')
      [[lootOf ''x'' 0.2, lootOf ''y'' 0.5], [lootOf ''x'' 0.5, lootOf ''x'' 0.1, lootOf ''y'' 0.5]]
      freshWorld = Inr w'"
    and stored: "map_of (biomeLoot w') ''desert'' = Some t"
    and best: "bestOf (set [lootOf ''x'' 0.2, lootOf ''y'' 0.5] \<union>
        \<Union> (set ` set [[lootOf ''x'' 0.5, lootOf ''x'' 0.1, lootOf ''y'' 0.5]])) t"
    by blast
  from run v have "w' = freshWorld\<lparr>biomeLoot := [(''desert'', [lootOf ''x'' 0.5, lootOf ''y'' 0.5])]\<rparr>"
    by simp
  with stored have "t = [lootOf ''x'' 0.5, lootOf ''y'' 0.5]" by simp
  with best d k v show ?thesis by blast
qed

text \<open>
  Merging into a table that names no item twice keeps an existing entry unless a new entry
  of its item has a strictly greater chance: a tie keeps the existing entry.
\<close>

theorem mergeRegistered_tie_keeps_existing:
  assumes d: "distinct (map item (existing :: ('n::{zero,plus,linorder}) lootEntry list))"
    and e: "e \<in> set existing"
    and le: "\<forall>n \<in> set loot. item n = item e \<longrightarrow> chance n \<le> chance e"
  shows "e \<in> set (mergeRegistered existing loot)"
proof -
  from mergeRegistered_covers [OF d, of e loot] e
  obtain r where r: "r \<in> set (mergeRegistered existing loot)" and ir: "item r = item e"
    by auto
  from mergeRegistered_best(2) [OF d r, of e] e ir have ge: "chance e \<le> chance r" by simp
  from mergeRegistered_best(1) [OF d r] have "r \<in> set existing \<union> set loot" .
  then have "chance r \<le> chance e"
  proof
    assume "r \<in> set existing"
    from distinct_items_unique [OF d this e ir] show ?thesis by simp
  next
    assume "r \<in> set loot"
    with le ir show ?thesis by simp
  qed
  with ge have "chance e = chance r" by simp
  from mergeRegistered_best(3) [OF d r e] ir this have "r = e" by simp
  with r show ?thesis by simp
qed

theorem mergeRegistered_tie_keeps_existing_witness:
  "distinct (map item [lootOf ''x'' (0.5 :: real)]) \<and>
   lootOf ''x'' 0.5 \<in> set [lootOf ''x'' (0.5 :: real)] \<and>
   lootOf ''x'' 0.5 \<in> set (mergeRegistered [lootOf ''x'' (0.5 :: real)]
      [\<lparr>item = ''x'', chance = 0.5,
         conditions = Some \<lparr>dimension = Some ''nether'', biomes = None\<rparr>\<rparr>])"
proof -
  have d: "distinct (map item [lootOf ''x'' (0.5 :: real)])" by simp
  have e: "lootOf ''x'' 0.5 \<in> set [lootOf ''x'' (0.5 :: real)]" by simp
  have le: "\<forall>n \<in> set [\<lparr>item = ''x'', chance = (0.5 :: real),
        conditions = Some \<lparr>dimension = Some ''nether'', biomes = None\<rparr>\<rparr>].
      item n = item (lootOf ''x'' 0.5) \<longrightarrow> chance n \<le> chance (lootOf ''x'' 0.5)"
    by (simp add: lootOf_def)
  from mergeRegistered_tie_keeps_existing [OF d e le] d e show ?thesis by blast
qed

end
